theory Spec2Isabelle
  imports Main "HOL-Library.AList"
begin

section \<open>The hub: AgentHUDWebSocketServer\<close>

text \<open>
  The hub of \<^verbatim>\<open>src/ui/dist/app.js\<close> (class \<^verbatim>\<open>AgentHUDWebSocketServer\<close>) keeps
  two JavaScript \<^verbatim>\<open>Map\<close>s (\<^verbatim>\<open>agents\<close>, \<^verbatim>\<open>humanRequests\<close>) and one \<^verbatim>\<open>Set\<close>
  (\<^verbatim>\<open>guiClients\<close>). A \<^verbatim>\<open>Map\<close> iterates in insertion order and \<^verbatim>\<open>set\<close> on a key
  that is present keeps its place, so a \<^verbatim>\<open>Map\<close> is an association list handled with
  \<^const>\<open>AList.update\<close>, \<^const>\<open>AList.delete\<close> and \<^const>\<open>map_of\<close>; the \<^verbatim>\<open>Set\<close> is a
  list without repetition.

  Every socket object \<^verbatim>\<open>ws\<close> is named by a number; the store \<open>conns\<close> gives each
  socket the three properties the hub reads or writes: \<^verbatim>\<open>readyState\<close> (written by
  the transport only), \<^verbatim>\<open>clientType\<close> and \<^verbatim>\<open>agentId\<close> (both \<^verbatim>\<open>undefined\<close> until
  a handler assigns them, hence options).

  What the environment chooses is a parameter of the handler that asks for it: the
  token returned by \<^verbatim>\<open>uuidv4()\<close> and the text of \<^verbatim>\<open>new Date().toISOString()\<close>.
  A field of a JSON object that may be missing is an option, \<open>None\<close> for
  \<^verbatim>\<open>undefined\<close>; the fields are strings, as the envelope of the interface has them.
\<close>

type_synonym conn = nat

datatype readyState = CONNECTING | OPEN | CLOSING | CLOSED

datatype clientType = Gui | AgentClient

record ws_object =
  readyState :: readyState
  clientType :: "clientType option"
  agentId :: "string option"

record agent =
  a_id :: string
  a_name :: string
  a_status :: string
  a_timestamp :: string

datatype status = Pending | Completed

text \<open>
  A request object. \<open>r_agentWs\<close> is the back reference \<^verbatim>\<open>request.agentWs\<close> (absent on
  the demo request). \<open>r_response\<close> is what \<^verbatim>\<open>request.response\<close> reads: \<open>None\<close> for
  \<^verbatim>\<open>undefined\<close>, which it is before \<^verbatim>\<open>request.response = response\<close> has run and also
  after it has run with an envelope that carried no \<^verbatim>\<open>response\<close> field.
\<close>

record request =
  r_id :: string
  r_agent_id :: "string option"
  r_agent_name :: string
  r_request_type :: string
  r_message :: string
  r_priority :: string
  r_status :: status
  r_timestamp :: string
  r_options :: "string list"
  r_agentWs :: "conn option"
  r_response :: "string option"

text \<open>
  The \<^verbatim>\<open>data\<close> object of an inbound envelope, with the fields the handlers read:
  \<^verbatim>\<open>name\<close> (register-agent), \<^verbatim>\<open>request_type\<close>, \<^verbatim>\<open>message\<close>, \<^verbatim>\<open>priority\<close>, \<^verbatim>\<open>options\<close>
  (human-input-request) and the four fields of an Agent, which an agent-update patch may
  overwrite through \<^verbatim>\<open>Object.assign\<close>. Keys of a patch outside these fields would become
  further properties of the agent object; no code of the hub reads them and the model
  leaves them out.
\<close>

record data =
  d_name :: "string option"
  d_request_type :: "string option"
  d_message :: "string option"
  d_priority :: "string option"
  d_options :: "string list option"
  d_id :: "string option"
  d_status :: "string option"
  d_timestamp :: "string option"

record envelope =
  m_type :: "string option"
  m_data :: "data option"
  m_requestId :: "string option"
  m_response :: "string option"

datatype outbound =
    AgentConnected agent
  | AgentDisconnected string
  | HumanInputRequest request
  | AgentUpdate agent
  | HumanInputResponse string "string option"

text \<open>
  \<open>pending\<close> is the timer \<^verbatim>\<open>createDemoData\<close> has armed: first the one that creates the
  demo agent, then (armed by the first when it fires) the one that creates the demo
  request; the second closes over the \<^verbatim>\<open>demoAgent\<close> object.
\<close>

datatype pending = CreateDemoAgent | CreateDemoRequest agent | NoTimer

record hub =
  conns :: "conn \<Rightarrow> ws_object"
  agents :: "(string \<times> agent) list"
  humanRequests :: "(string \<times> request) list"
  guiClients :: "conn list"
  pending :: pending

datatype error = TypeError

type_synonym sends = "(conn \<times> outbound) list"

text \<open>\<^verbatim>\<open>x || d\<close> on a string that may be undefined: the empty string is falsy too.\<close>

definition or_default :: "string option \<Rightarrow> string \<Rightarrow> string" where
  "or_default x d = (case x of None \<Rightarrow> d | Some v \<Rightarrow> if v = [] then d else v)"

text \<open>\<^verbatim>\<open>Map.prototype.get\<close> with a key that may be \<^verbatim>\<open>undefined\<close> (never a key of the Map).\<close>

definition map_get :: "(string \<times> 'v) list \<Rightarrow> string option \<Rightarrow> 'v option" where
  "map_get m k = (case k of None \<Rightarrow> None | Some key \<Rightarrow> map_of m key)"

text \<open>\<^verbatim>\<open>Set.prototype.add\<close>: an element already present keeps its place.\<close>

definition set_add :: "conn \<Rightarrow> conn list \<Rightarrow> conn list" where
  "set_add c cs = (if c \<in> set cs then cs else cs @ [c])"

text \<open>
  \<^verbatim>\<open>JSON.stringify(message)\<close> serialises every property it reaches. A request reaches a
  socket object of the \<^verbatim>\<open>ws\<close> library through \<^verbatim>\<open>request.agentWs\<close>. While that socket
  is closing (its closing handshake has begun and the \<^verbatim>\<open>'close'\<close> event is still to
  come) it holds its armed close timer, a cyclic object, and \<^verbatim>\<open>JSON.stringify\<close> throws
  a TypeError on a cycle; an open or closed socket holds none. No other message of the
  hub reaches a socket.
\<close>

definition stringify_throws :: "hub \<Rightarrow> outbound \<Rightarrow> bool" where
  "stringify_throws s message =
     (case message of
        HumanInputRequest request \<Rightarrow>
          (case r_agentWs request of
             Some w \<Rightarrow> readyState (conns s w) = CLOSING
           | None \<Rightarrow> False)
      | _ \<Rightarrow> False)"

text \<open>
  What a piece of code has sent, and the error it has thrown if it has thrown one.
  \<open>and_then a b\<close> is \<open>a\<close> followed by \<open>b\<close>: when \<open>a\<close> throws, \<open>b\<close> does not run.
  \<open>for_of xs body\<close> is the loop \<^verbatim>\<open>for (const x of xs) body(x)\<close>.
\<close>

type_synonym sending = "sends \<times> error option"

definition and_then :: "sending \<Rightarrow> sending \<Rightarrow> sending" where
  "and_then a b =
     (case snd a of
        Some e \<Rightarrow> a
      | None \<Rightarrow> (fst a @ fst b, snd b))"

fun for_of :: "'a list \<Rightarrow> ('a \<Rightarrow> sending) \<Rightarrow> sending" where
  "for_of [] body = ([], None)"
| "for_of (x # xs) body = and_then (body x) (for_of xs body)"

definition sendToClient :: "hub \<Rightarrow> conn \<Rightarrow> outbound \<Rightarrow> sending" where
  "sendToClient s ws message =
     (if readyState (conns s ws) = OPEN
      then (if stringify_throws s message then ([], Some TypeError)
            else ([(ws, message)], None))
      else ([], None))"

definition broadcastToGUIs :: "hub \<Rightarrow> outbound \<Rightarrow> sending" where
  "broadcastToGUIs s message = for_of (guiClients s) (\<lambda>gui. sendToClient s gui message)"

text \<open>
  A handler returns the hub as it has left it, with what it has sent and the error it has
  thrown. Assignments made and messages sent before a throw stay made and sent.
\<close>

definition registerGUI :: "hub \<Rightarrow> conn \<Rightarrow> hub \<times> sending" where
  "registerGUI s ws =
     (let s1 = s\<lparr>conns := (conns s)(ws := (conns s ws)\<lparr>clientType := Some Gui\<rparr>),
                 guiClients := set_add ws (guiClients s)\<rparr>
      in (s1,
          and_then
            (for_of (agents s1) (\<lambda>(k, agent). sendToClient s1 ws (AgentConnected agent)))
            (for_of (humanRequests s1)
               (\<lambda>(k, request). sendToClient s1 ws (HumanInputRequest request)))))"

definition registerAgent ::
  "hub \<Rightarrow> conn \<Rightarrow> data option \<Rightarrow> string \<Rightarrow> string \<Rightarrow> hub \<times> sending" where
  "registerAgent s ws agentData uuid now =
     (case agentData of
        None \<Rightarrow> (s, [], Some TypeError)
      | Some d \<Rightarrow>
          let agent = \<lparr>a_id = uuid, a_name = or_default (d_name d) ''Unknown Agent'',
                       a_status = ''Connected'', a_timestamp = now\<rparr>;
              s1 = s\<lparr>conns := (conns s)(ws := (conns s ws)\<lparr>clientType := Some AgentClient,
                                                            agentId := Some uuid\<rparr>),
                     agents := AList.update uuid agent (agents s)\<rparr>
          in (s1, broadcastToGUIs s1 (AgentConnected agent)))"

definition handleHumanInputRequest ::
  "hub \<Rightarrow> conn \<Rightarrow> data option \<Rightarrow> string \<Rightarrow> string \<Rightarrow> hub \<times> sending" where
  "handleHumanInputRequest s ws requestData uuid now =
     (case requestData of
        None \<Rightarrow> (s, [], Some TypeError)
      | Some d \<Rightarrow>
          let request = \<lparr>r_id = uuid,
                         r_agent_id = agentId (conns s ws),
                         r_agent_name = (case map_get (agents s) (agentId (conns s ws)) of
                                           Some agent \<Rightarrow> a_name agent
                                         | None \<Rightarrow> ''Unknown Agent''),
                         r_request_type = or_default (d_request_type d) ''input'',
                         r_message = or_default (d_message d) ''Human input required'',
                         r_priority = or_default (d_priority d) ''Medium'',
                         r_status = Pending,
                         r_timestamp = now,
                         r_options = (case d_options d of Some os \<Rightarrow> os | None \<Rightarrow> []),
                         r_agentWs = Some ws,
                         r_response = None\<rparr>;
              s1 = s\<lparr>humanRequests := AList.update uuid request (humanRequests s)\<rparr>
          in (s1, broadcastToGUIs s1 (HumanInputRequest request)))"

definition handleHumanInputResponse ::
  "hub \<Rightarrow> string option \<Rightarrow> string option \<Rightarrow> hub \<times> sending" where
  "handleHumanInputResponse s requestId response =
     (case requestId of
        None \<Rightarrow> (s, [], None)
      | Some k \<Rightarrow>
         (case map_of (humanRequests s) k of
            None \<Rightarrow> (s, [], None)
          | Some request0 \<Rightarrow>
              let request = request0\<lparr>r_status := Completed, r_response := response\<rparr>;
                  s1 = s\<lparr>humanRequests := AList.update k request (humanRequests s)\<rparr>
              in (s1,
                  and_then
                    (case r_agentWs request of
                       Some w \<Rightarrow>
                         if readyState (conns s1 w) = OPEN
                         then sendToClient s1 w (HumanInputResponse k response)
                         else ([], None)
                     | None \<Rightarrow> ([], None))
                    (broadcastToGUIs s1 (HumanInputRequest request)))))"

text \<open>\<^verbatim>\<open>Object.assign(agent, updateData)\<close> on the four fields of an Agent.\<close>

definition assign :: "agent \<Rightarrow> data option \<Rightarrow> agent" where
  "assign agent updateData =
     (case updateData of
        None \<Rightarrow> agent
      | Some d \<Rightarrow>
          \<lparr>a_id = (case d_id d of Some v \<Rightarrow> v | None \<Rightarrow> a_id agent),
           a_name = (case d_name d of Some v \<Rightarrow> v | None \<Rightarrow> a_name agent),
           a_status = (case d_status d of Some v \<Rightarrow> v | None \<Rightarrow> a_status agent),
           a_timestamp = (case d_timestamp d of Some v \<Rightarrow> v | None \<Rightarrow> a_timestamp agent)\<rparr>)"

definition handleAgentUpdate :: "hub \<Rightarrow> conn \<Rightarrow> data option \<Rightarrow> hub \<times> sending" where
  "handleAgentUpdate s ws updateData =
     (case agentId (conns s ws) of
        None \<Rightarrow> (s, [], None)
      | Some k \<Rightarrow>
         (case map_of (agents s) k of
            None \<Rightarrow> (s, [], None)
          | Some agent0 \<Rightarrow>
              let agent = assign agent0 updateData;
                  s1 = s\<lparr>agents := AList.update k agent (agents s)\<rparr>
              in (s1, broadcastToGUIs s1 (AgentUpdate agent))))"

text \<open>
  \<^verbatim>\<open>handleDisconnection\<close> runs in the \<^verbatim>\<open>'close'\<close> callback, outside any \<^verbatim>\<open>try\<close>. Its
  only message, \<^verbatim>\<open>agent-disconnected\<close>, reaches no socket, so its broadcast does not
  throw (lemma \<open>broadcast_without_socket\<close> below) and only what it sends is kept.
\<close>

definition handleDisconnection :: "hub \<Rightarrow> conn \<Rightarrow> hub \<times> sends" where
  "handleDisconnection s ws =
     (if clientType (conns s ws) = Some Gui then
        (s\<lparr>guiClients := removeAll ws (guiClients s)\<rparr>, [])
      else if clientType (conns s ws) = Some AgentClient then
        (case agentId (conns s ws) of
           None \<Rightarrow> (s, [])
         | Some k \<Rightarrow>
            if k = [] then (s, [])
            else (case map_of (agents s) k of
                    None \<Rightarrow> (s, [])
                  | Some agent \<Rightarrow>
                      let s1 = s\<lparr>agents := AList.delete k (agents s)\<rparr>
                      in (s1, fst (broadcastToGUIs s1 (AgentDisconnected k)))))
      else (s, []))"

definition handleMessage ::
  "hub \<Rightarrow> conn \<Rightarrow> envelope \<Rightarrow> string \<Rightarrow> string \<Rightarrow> hub \<times> sending" where
  "handleMessage s ws message uuid now =
     (if m_type message = Some ''register-gui'' then registerGUI s ws
      else if m_type message = Some ''register-agent'' then
        registerAgent s ws (m_data message) uuid now
      else if m_type message = Some ''human-input-request'' then
        handleHumanInputRequest s ws (m_data message) uuid now
      else if m_type message = Some ''human-input-response'' then
        handleHumanInputResponse s (m_requestId message) (m_response message)
      else if m_type message = Some ''agent-update'' then
        handleAgentUpdate s ws (m_data message)
      else (s, [], None))"

text \<open>
  The \<^verbatim>\<open>'message'\<close> callback of \<^verbatim>\<open>start\<close>: \<^verbatim>\<open>JSON.parse\<close> and the handler run inside
  one \<^verbatim>\<open>try\<close>; whatever is thrown is logged and nothing else happens, so the callback
  leaves the hub and the sends as the handler left them when it threw. \<open>None\<close> is a
  text \<^verbatim>\<open>JSON.parse\<close> rejects.
\<close>

definition on_message ::
  "hub \<Rightarrow> conn \<Rightarrow> envelope option \<Rightarrow> string \<Rightarrow> string \<Rightarrow> hub \<times> sends" where
  "on_message s ws parsed uuid now =
     (case parsed of
        None \<Rightarrow> (s, [])
      | Some message \<Rightarrow>
          (fst (handleMessage s ws message uuid now),
           fst (snd (handleMessage s ws message uuid now))))"

text \<open>The \<^verbatim>\<open>'close'\<close> callback: the transport has closed the socket, then the handler runs.\<close>

definition on_close :: "hub \<Rightarrow> conn \<Rightarrow> hub \<times> sends" where
  "on_close s ws =
     handleDisconnection (s\<lparr>conns := (conns s)(ws := (conns s ws)\<lparr>readyState := CLOSED\<rparr>)\<rparr>) ws"

definition demoAgent :: "string \<Rightarrow> agent" where
  "demoAgent now = \<lparr>a_id = ''demo-agent-001'', a_name = ''Demo Analysis Agent'',
                    a_status = ''Active'', a_timestamp = now\<rparr>"

definition demoRequest :: "agent \<Rightarrow> string \<Rightarrow> request" where
  "demoRequest agent now =
     \<lparr>r_id = ''demo-request-001'',
      r_agent_id = Some (a_id agent),
      r_agent_name = a_name agent,
      r_request_type = ''approval'',
      r_message = ''Should I proceed with the data analysis? This will process 10,000 records.'',
      r_priority = ''High'',
      r_status = Pending,
      r_timestamp = now,
      r_options = [''Yes, proceed'', ''No, cancel'', ''Review settings first''],
      r_agentWs = None,
      r_response = None\<rparr>"

text \<open>
  A timer of \<^verbatim>\<open>createDemoData\<close> fires. The inner callback reads the \<^verbatim>\<open>demoAgent\<close> object
  of its closure, which no handler can reach while no socket carries its id. Neither of
  its two messages reaches a socket (the demo request has no \<^verbatim>\<open>agentWs\<close>), so neither
  broadcast throws and only what they send is kept.
\<close>

definition on_timer :: "hub \<Rightarrow> string \<Rightarrow> hub \<times> sends" where
  "on_timer s now =
     (case pending s of
        NoTimer \<Rightarrow> (s, [])
      | CreateDemoAgent \<Rightarrow>
          (s\<lparr>agents := AList.update ''demo-agent-001'' (demoAgent now) (agents s),
             pending := CreateDemoRequest (demoAgent now)\<rparr>, [])
      | CreateDemoRequest agent \<Rightarrow>
          let request = demoRequest agent now;
              s1 = s\<lparr>humanRequests := AList.update ''demo-request-001'' request (humanRequests s),
                     pending := NoTimer\<rparr>
          in (s1, fst (broadcastToGUIs s1 (AgentConnected agent)) @
                  fst (broadcastToGUIs s1 (HumanInputRequest request))))"

text \<open>
  The hub after its constructor and \<^verbatim>\<open>start\<close>: empty Maps and Set, the first demo timer
  armed. A socket is \<^verbatim>\<open>OPEN\<close> with no \<^verbatim>\<open>clientType\<close> and no \<^verbatim>\<open>agentId\<close> when the
  \<^verbatim>\<open>'connection'\<close> callback receives it.
\<close>

definition new_ws :: ws_object where
  "new_ws = \<lparr>readyState = OPEN, clientType = None, agentId = None\<rparr>"

definition start :: hub where
  "start = \<lparr>conns = (\<lambda>ws. new_ws), agents = [], humanRequests = [], guiClients = [],
            pending = CreateDemoAgent\<rparr>"

text \<open>
  What can happen to the hub: an inbound text on a socket (with the token and the time
  its handler would draw), the transport leaving \<^verbatim>\<open>OPEN\<close> before the \<^verbatim>\<open>'close'\<close>
  event is delivered, the \<^verbatim>\<open>'close'\<close> event, and a demo timer firing.
\<close>

datatype event =
    Message conn "envelope option" string string
  | Closing conn
  | Close conn
  | Timer string

fun step :: "hub \<Rightarrow> event \<Rightarrow> hub \<times> sends" where
  "step s (Message ws parsed uuid now) = on_message s ws parsed uuid now"
| "step s (Closing ws) = (s\<lparr>conns := (conns s)(ws := (conns s ws)\<lparr>readyState := CLOSING\<rparr>)\<rparr>, [])"
| "step s (Close ws) = on_close s ws"
| "step s (Timer now) = on_timer s now"

text \<open>A run: the state after the events and everything sent, in order.\<close>

fun run :: "hub \<Rightarrow> event list \<Rightarrow> hub \<times> sends" where
  "run s [] = (s, [])"
| "run s (e # es) = (let (s1, out1) = step s e; (s2, out2) = run s1 es in (s2, out1 @ out2))"

text \<open>
  What the transport and \<^verbatim>\<open>uuidv4\<close> guarantee about an event, as a check on the state it
  arrives in: a socket that has had its \<^verbatim>\<open>'close'\<close> event receives nothing more, and a
  token drawn by \<^verbatim>\<open>uuidv4\<close> is a non-empty string that is no key of either Map and
  neither of the two demo ids (which do not have the form of a UUID).
\<close>

definition fresh :: "hub \<Rightarrow> string \<Rightarrow> bool" where
  "fresh s uuid =
     (uuid \<noteq> [] \<and> uuid \<noteq> ''demo-agent-001'' \<and> uuid \<noteq> ''demo-request-001'' \<and>
      uuid \<notin> fst ` set (agents s) \<and> uuid \<notin> fst ` set (humanRequests s))"

fun admissible :: "hub \<Rightarrow> event \<Rightarrow> bool" where
  "admissible s (Message ws parsed uuid now) = (readyState (conns s ws) \<noteq> CLOSED \<and> fresh s uuid)"
| "admissible s (Closing ws) = (readyState (conns s ws) = OPEN)"
| "admissible s (Close ws) = (readyState (conns s ws) \<noteq> CLOSED)"
| "admissible s (Timer now) = True"

fun admissible_run :: "hub \<Rightarrow> event list \<Rightarrow> bool" where
  "admissible_run s [] = True"
| "admissible_run s (e # es) = (admissible s e \<and> admissible_run (fst (step s e)) es)"

text \<open>A registration message (\<^verbatim>\<open>register-gui\<close> or \<^verbatim>\<open>register-agent\<close>).\<close>

definition is_registration :: "envelope option \<Rightarrow> bool" where
  "is_registration parsed =
     (case parsed of
        None \<Rightarrow> False
      | Some message \<Rightarrow>
          m_type message = Some ''register-gui'' \<or> m_type message = Some ''register-agent'')"

text \<open>No socket sends a registration message after its first one.\<close>

fun registers_once :: "hub \<Rightarrow> event \<Rightarrow> bool" where
  "registers_once s (Message ws parsed uuid now) =
     (if is_registration parsed then clientType (conns s ws) = None else True)"
| "registers_once s e = True"

fun registers_once_run :: "hub \<Rightarrow> event list \<Rightarrow> bool" where
  "registers_once_run s [] = True"
| "registers_once_run s (e # es) = (registers_once s e \<and> registers_once_run (fst (step s e)) es)"

section \<open>The dashboard: the data of AgentHUDApp\<close>

text \<open>
  The observer's client (class \<^verbatim>\<open>AgentHUDApp\<close>) keeps arrays of the objects it has
  received. \<^verbatim>\<open>updateUI\<close> and the other rendering methods read these fields and write the
  document only; every method below assigns its fields before it calls \<^verbatim>\<open>updateUI\<close>, so
  the fields after a call do not depend on the rendering, which is left out. The payload
  of \<^verbatim>\<open>agent-connected\<close> and \<^verbatim>\<open>human-input-request\<close> is the object the hub sent.
\<close>

record content_item =
  c_id :: "string option"
  c_type :: "string option"
  c_content :: "string option"
  c_url :: "string option"
  c_language :: "string option"
  c_caption :: "string option"
  c_title :: "string option"
  c_agent_id :: "string option"
  c_agent_name :: "string option"
  c_timestamp :: "string option"

record app =
  app_agents :: "agent list"
  app_humanRequests :: "request list"
  contentItems :: "content_item list"
  latestContent :: "content_item option"
  currentContentIndex :: int
  currentRequestId :: "string option"

definition AgentHUDApp :: app where
  "AgentHUDApp = \<lparr>app_agents = [], app_humanRequests = [], contentItems = [],
                  latestContent = None, currentContentIndex = - 1, currentRequestId = None\<rparr>"

text \<open>\<^verbatim>\<open>!x\<close> on a string that may be undefined.\<close>

definition falsy :: "string option \<Rightarrow> bool" where
  "falsy x = (case x of None \<Rightarrow> True | Some v \<Rightarrow> v = [])"

definition addAgent :: "app \<Rightarrow> agent \<Rightarrow> app" where
  "addAgent a agent =
     (case find (\<lambda>x. a_id x = a_id agent) (app_agents a) of
        Some existing \<Rightarrow> a
      | None \<Rightarrow> a\<lparr>app_agents := app_agents a @ [agent]\<rparr>)"

definition removeAgent :: "app \<Rightarrow> string \<Rightarrow> app" where
  "removeAgent a k = a\<lparr>app_agents := filter (\<lambda>x. a_id x \<noteq> k) (app_agents a)\<rparr>"

definition addRequest :: "app \<Rightarrow> request \<Rightarrow> app" where
  "addRequest a request =
     (case find (\<lambda>r. r_id r = r_id request) (app_humanRequests a) of
        Some existing \<Rightarrow> a
      | None \<Rightarrow> a\<lparr>app_humanRequests := app_humanRequests a @ [request]\<rparr>)"

text \<open>
  \<open>date_now\<close> and \<open>random\<close> are the texts of \<^verbatim>\<open>Date.now()\<close> and of
  \<^verbatim>\<open>Math.random().toString(36).substr(2, 9)\<close>, read when the item has no id.
\<close>

definition addContentItem :: "app \<Rightarrow> content_item \<Rightarrow> string \<Rightarrow> string \<Rightarrow> app" where
  "addContentItem a contentItem0 date_now random =
     (let contentItem =
            (if falsy (c_id contentItem0)
             then contentItem0\<lparr>c_id := Some (date_now @ ''-'' @ random)\<rparr>
             else contentItem0)
      in case find (\<lambda>c. c_id c = c_id contentItem) (contentItems a) of
           Some existing \<Rightarrow> a
         | None \<Rightarrow>
             a\<lparr>contentItems := contentItems a @ [contentItem],
               latestContent := Some contentItem,
               currentContentIndex := int (length (contentItems a @ [contentItem])) - 1\<rparr>)"

text \<open>
  \<^verbatim>\<open>clearHumanRequests\<close>: \<open>confirmed\<close> is what the \<^verbatim>\<open>confirm\<close> dialog returns. The
  second component lists the envelopes the method sends on the socket: it sends none.
\<close>

definition clearHumanRequests :: "app \<Rightarrow> bool \<Rightarrow> app \<times> envelope list" where
  "clearHumanRequests a confirmed =
     (if confirmed then (a\<lparr>app_humanRequests := [], currentRequestId := None\<rparr>, [])
      else (a, []))"

text \<open>
  \<^verbatim>\<open>handleWebSocketMessage\<close> on an event of the hub. \<^verbatim>\<open>agent-update\<close> is logged only,
  and \<^verbatim>\<open>human-input-response\<close> is no case of the switch.
\<close>

fun handleWebSocketMessage :: "app \<Rightarrow> outbound \<Rightarrow> app" where
  "handleWebSocketMessage a (AgentConnected agent) = addAgent a agent"
| "handleWebSocketMessage a (AgentDisconnected k) = removeAgent a k"
| "handleWebSocketMessage a (HumanInputRequest request) = addRequest a request"
| "handleWebSocketMessage a (AgentUpdate agent) = a"
| "handleWebSocketMessage a (HumanInputResponse k response) = a"

text \<open>The dashboard on socket \<open>ws\<close> handles, in order, what a list of sends holds for it.\<close>

definition receive :: "conn \<Rightarrow> app \<Rightarrow> sends \<Rightarrow> app" where
  "receive ws a out = foldl handleWebSocketMessage a (map snd (filter (\<lambda>(w, m). w = ws) out))"

section \<open>The dashboard: discovery of the hub's port\<close>

text \<open>
  \<^verbatim>\<open>connectToWebSocket\<close> and \<^verbatim>\<open>tryConnectToPort\<close> are asynchronous: they create
  sockets, install callbacks and arm timers, and the browser calls back later. The model
  keeps what they create in the state (the sockets with the promise each one settles,
  the timers with their delay in milliseconds) and takes the browser's calls as events.

  A promise settles once: \<^verbatim>\<open>resolve\<close> and \<^verbatim>\<open>reject\<close> on a settled promise do nothing.
  The \<^verbatim>\<open>for\<close> loop of \<^verbatim>\<open>connectToWebSocket\<close> awaits one promise at a time; when the
  promise of the probe of port \<open>p\<close> is rejected the loop goes on at \<open>p + 1\<close>, when it
  is fulfilled the function returns. A timer id is the index of the timer (a browser's
  ids are positive, so every id is truthy).
\<close>

datatype promise = Unsettled | Fulfilled | Rejected

record probe =
  p_port :: nat
  p_readyState :: readyState
  p_promise :: promise

datatype timer_action = ConnectionTimeout nat | Reconnect

record timer =
  t_delay :: nat
  t_action :: timer_action
  t_armed :: bool

record discovery =
  app_ws :: "nat option"
  reconnectInterval :: "nat option"
  connectionStatus :: "string option"
  sockets :: "probe list"
  timers :: "timer list"
  sent :: "(nat \<times> string) list"

definition setTimeout :: "discovery \<Rightarrow> timer_action \<Rightarrow> nat \<Rightarrow> discovery \<times> nat" where
  "setTimeout d action delay =
     (d\<lparr>timers := timers d @ [\<lparr>t_delay = delay, t_action = action, t_armed = True\<rparr>]\<rparr>,
      length (timers d))"

definition clearTimeout :: "discovery \<Rightarrow> nat \<Rightarrow> discovery" where
  "clearTimeout d t =
     (if t < length (timers d)
      then d\<lparr>timers := (timers d)[t := (timers d ! t)\<lparr>t_armed := False\<rparr>]\<rparr>
      else d)"

definition tryConnectToPort :: "discovery \<Rightarrow> nat \<Rightarrow> discovery" where
  "tryConnectToPort d port =
     (let k = length (sockets d);
          d1 = d\<lparr>sockets := sockets d @
                   [\<lparr>p_port = port, p_readyState = CONNECTING, p_promise = Unsettled\<rparr>]\<rparr>
      in fst (setTimeout d1 (ConnectionTimeout k) 1000))"

text \<open>The loop of \<^verbatim>\<open>connectToWebSocket\<close> from its test \<^verbatim>\<open>port < 8200\<close> on.\<close>

definition scan_from :: "discovery \<Rightarrow> nat \<Rightarrow> discovery" where
  "scan_from d port =
     (if port < 8200 then tryConnectToPort d port
      else d\<lparr>connectionStatus := Some ''Server Not Found''\<rparr>)"

definition connectToWebSocket :: "discovery \<Rightarrow> discovery" where
  "connectToWebSocket d = scan_from d 8080"

definition set_promise :: "discovery \<Rightarrow> nat \<Rightarrow> promise \<Rightarrow> discovery" where
  "set_promise d k v = d\<lparr>sockets := (sockets d)[k := (sockets d ! k)\<lparr>p_promise := v\<rparr>]\<rparr>"

definition set_readyState :: "discovery \<Rightarrow> nat \<Rightarrow> readyState \<Rightarrow> discovery" where
  "set_readyState d k v = d\<lparr>sockets := (sockets d)[k := (sockets d ! k)\<lparr>p_readyState := v\<rparr>]\<rparr>"

definition reject :: "discovery \<Rightarrow> nat \<Rightarrow> discovery" where
  "reject d k =
     (if p_promise (sockets d ! k) = Unsettled
      then scan_from (set_promise d k Rejected) (p_port (sockets d ! k) + 1)
      else d)"

definition resolve :: "discovery \<Rightarrow> nat \<Rightarrow> discovery" where
  "resolve d k =
     (if p_promise (sockets d ! k) = Unsettled then set_promise d k Fulfilled else d)"

definition onopen :: "discovery \<Rightarrow> nat \<Rightarrow> discovery" where
  "onopen d k =
     (let d1 = d\<lparr>app_ws := Some k, connectionStatus := Some ''Connected''\<rparr>;
          d2 = (case reconnectInterval d1 of
                  Some t \<Rightarrow> (clearTimeout d1 t)\<lparr>reconnectInterval := None\<rparr>
                | None \<Rightarrow> d1);
          d3 = d2\<lparr>sent := sent d2 @ [(k, ''register-gui'')]\<rparr>
      in resolve d3 k)"

definition onclose :: "discovery \<Rightarrow> nat \<Rightarrow> discovery" where
  "onclose d k =
     (let (d1, t) = setTimeout (d\<lparr>connectionStatus := Some ''Disconnected''\<rparr>) Reconnect 3000
      in d1\<lparr>reconnectInterval := Some t\<rparr>)"

definition onerror :: "discovery \<Rightarrow> nat \<Rightarrow> discovery" where
  "onerror d k = reject d k"

text \<open>
  \<^verbatim>\<open>ws.close()\<close> of the WebSocket interface: a socket that is connecting or open starts
  closing, any other is left alone.
\<close>

definition ws_close :: "discovery \<Rightarrow> nat \<Rightarrow> discovery" where
  "ws_close d k =
     (if p_readyState (sockets d ! k) = CONNECTING \<or> p_readyState (sockets d ! k) = OPEN
      then set_readyState d k CLOSING else d)"

text \<open>The callback of the timer armed by \<^verbatim>\<open>tryConnectToPort\<close>.\<close>

definition connection_timeout :: "discovery \<Rightarrow> nat \<Rightarrow> discovery" where
  "connection_timeout d k =
     (if p_readyState (sockets d ! k) \<noteq> OPEN then reject (ws_close d k) k else d)"

text \<open>
  The browser's calls: a socket opened, failed or closed (the browser has set
  \<^verbatim>\<open>readyState\<close> before an \<^verbatim>\<open>open\<close> or \<^verbatim>\<open>close\<close> callback runs), or an armed timer
  fired. An event for a socket or timer that does not exist changes nothing.
\<close>

datatype browser_event = Opened nat | Errored nat | Closed nat | Fired nat

fun browser_step :: "discovery \<Rightarrow> browser_event \<Rightarrow> discovery" where
  "browser_step d (Opened k) =
     (if k < length (sockets d) then onopen (set_readyState d k OPEN) k else d)"
| "browser_step d (Errored k) =
     (if k < length (sockets d) then onerror d k else d)"
| "browser_step d (Closed k) =
     (if k < length (sockets d) then onclose (set_readyState d k CLOSED) k else d)"
| "browser_step d (Fired t) =
     (if t < length (timers d) \<and> t_armed (timers d ! t)
      then (let d1 = clearTimeout d t
            in case t_action (timers d ! t) of
                 ConnectionTimeout k \<Rightarrow> connection_timeout d1 k
               | Reconnect \<Rightarrow> connectToWebSocket d1)
      else d)"

text \<open>The dashboard after its constructor and \<^verbatim>\<open>init\<close>, which starts the first scan.\<close>

definition init :: discovery where
  "init = connectToWebSocket \<lparr>app_ws = None, reconnectInterval = None, connectionStatus = None,
                              sockets = [], timers = [], sent = []\<rparr>"

text \<open>The ports of the sockets that are connecting at this moment.\<close>

definition connecting :: "discovery \<Rightarrow> nat list" where
  "connecting d = map p_port (filter (\<lambda>p. p_readyState p = CONNECTING) (sockets d))"

section \<open>Concrete inputs\<close>

text \<open>An envelope with a type and a data object only, and a data object with no field.\<close>

definition envelope_of :: "string \<Rightarrow> data option \<Rightarrow> envelope" where
  "envelope_of t d = \<lparr>m_type = Some t, m_data = d, m_requestId = None, m_response = None\<rparr>"

definition no_data :: data where
  "no_data = \<lparr>d_name = None, d_request_type = None, d_message = None, d_priority = None,
              d_options = None, d_id = None, d_status = None, d_timestamp = None\<rparr>"

text \<open>The hub once socket 1 has registered as a dashboard and nothing else has happened.\<close>

definition observer_only :: hub where
  "observer_only = fst (run start [Message 1 (Some (envelope_of ''register-gui'' None)) [] []])"

text \<open>The hub once both demo timers have fired, with no socket attached.\<close>

definition hub_after_demo :: hub where
  "hub_after_demo = fst (run start [Timer ''t0'', Timer ''t1''])"

text \<open>A dashboard that attaches to that hub on socket 1 and has handled the replay.\<close>

definition dashboard_one :: app where
  "dashboard_one = receive 1 AgentHUDApp
     (snd (on_message hub_after_demo 1 (Some (envelope_of ''register-gui'' None)) [] []))"

definition resolved_demoRequest :: request where
  "resolved_demoRequest =
     (demoRequest (demoAgent ''t0'') ''t1'')\<lparr>r_status := Completed,
        r_response := Some ''Yes, proceed''\<rparr>"

definition markdown_item :: content_item where
  "markdown_item = \<lparr>c_id = Some ''c-1'', c_type = Some ''markdown'', c_content = Some ''# Report'',
     c_url = None, c_language = None, c_caption = None, c_title = Some ''Report'',
     c_agent_id = Some ''demo-agent-001'', c_agent_name = Some ''Demo Analysis Agent'',
     c_timestamp = Some ''t2''\<rparr>"

definition dashboard_with_content :: app where
  "dashboard_with_content = addContentItem AgentHUDApp markdown_item ''17'' ''abc''"

text \<open>
  The scenario of the specification: two dashboards (sockets 1 and 2) register, an agent
  (socket 3) registers as \<^verbatim>\<open>Analyst\<close> and submits a request, which dashboard 1 then
  resolves with \<^verbatim>\<open>Yes\<close>.
\<close>

definition approval_data :: data where
  "approval_data = no_data\<lparr>d_request_type := Some ''approval'', d_message := Some ''proceed?'',
       d_priority := Some ''High'', d_options := Some [''Yes'', ''No'']\<rparr>"

definition two_observers :: "event list" where
  "two_observers =
     [Message 1 (Some (envelope_of ''register-gui'' None)) ''u0'' ''t0'',
      Message 2 (Some (envelope_of ''register-gui'' None)) ''u1'' ''t1'',
      Message 3 (Some (envelope_of ''register-agent'' (Some (no_data\<lparr>d_name := Some ''Analyst''\<rparr>))))
        ''A1'' ''t2'',
      Message 3 (Some (envelope_of ''human-input-request'' (Some approval_data))) ''R1'' ''t3'']"

definition resolve_R1 :: envelope where
  "resolve_R1 = \<lparr>m_type = Some ''human-input-response'', m_data = None,
                  m_requestId = Some ''R1'', m_response = Some ''Yes''\<rparr>"

definition R1 :: request where
  "R1 = \<lparr>r_id = ''R1'', r_agent_id = Some ''A1'', r_agent_name = ''Analyst'',
          r_request_type = ''approval'', r_message = ''proceed?'', r_priority = ''High'',
          r_status = Pending, r_timestamp = ''t3'', r_options = [''Yes'', ''No''],
          r_agentWs = Some 3, r_response = None\<rparr>"

text \<open>The resolution of R1 by an envelope that carries no \<^verbatim>\<open>response\<close> field.\<close>

definition resolve_R1_without_response :: envelope where
  "resolve_R1_without_response = \<lparr>m_type = Some ''human-input-response'', m_data = None,
                                   m_requestId = Some ''R1'', m_response = None\<rparr>"

text \<open>
  The scenario up to the request, after which the agent's socket starts to close; a new
  dashboard then attaches on the open socket 4.
\<close>

definition agent_closing :: "event list" where
  "agent_closing = two_observers @ [Closing 3]"

text \<open>An event that carries a request, among the sends of the hub.\<close>

definition is_request_event :: "conn \<times> outbound \<Rightarrow> bool" where
  "is_request_event x = (case snd x of HumanInputRequest r \<Rightarrow> True | _ \<Rightarrow> False)"

text \<open>
  Predicates on the ledger used below: the demo request id is not a key of the ledger
  while a demo timer is still armed; a request with a response is Completed; a request
  has a response exactly when it is Completed.
\<close>

definition demo_unused :: "hub \<Rightarrow> bool" where
  "demo_unused s = (pending s = NoTimer \<or> ''demo-request-001'' \<notin> fst ` set (humanRequests s))"

definition answered_is_completed :: "request \<Rightarrow> bool" where
  "answered_is_completed r = (r_response r = None \<or> r_status r = Completed)"

definition settled :: "request \<Rightarrow> bool" where
  "settled r = ((r_response r \<noteq> None) = (r_status r = Completed))"

text \<open>
  A \<^verbatim>\<open>human-input-response\<close> envelope carries its \<^verbatim>\<open>response\<close> field; every other
  event passes.
\<close>

fun carries_response :: "event \<Rightarrow> bool" where
  "carries_response (Message ws (Some message) uuid now) =
     (if m_type message = Some ''human-input-response'' then m_response message \<noteq> None
      else True)"
| "carries_response e = True"

text \<open>Two hubs that differ at most in the role tags (\<^verbatim>\<open>clientType\<close>) of their sockets.\<close>

definition same_but_roles :: "hub \<Rightarrow> hub \<Rightarrow> bool" where
  "same_but_roles s t =
     (agents s = agents t \<and> humanRequests s = humanRequests t \<and>
      guiClients s = guiClients t \<and> pending s = pending t \<and>
      (\<forall>ws. readyState (conns s ws) = readyState (conns t ws) \<and>
            agentId (conns s ws) = agentId (conns t ws)))"

text \<open>The hub with the role tag of every socket set to \<^verbatim>\<open>agent\<close>.\<close>

definition all_agents :: "hub \<Rightarrow> hub" where
  "all_agents s = s\<lparr>conns := (\<lambda>ws. (conns s ws)\<lparr>clientType := Some AgentClient\<rparr>)\<rparr>"

text \<open>
  How Agent records and sockets fit together, stated on what the hub reads of a socket:
  its \<^verbatim>\<open>agentId\<close> (\<open>ident\<close>), whether its \<^verbatim>\<open>'close'\<close> event is still to come
  (\<open>live\<close>), and whether its \<^verbatim>\<open>clientType\<close> is \<^verbatim>\<open>agent\<close>. A socket carries an id
  exactly when it is an agent's; the id of a live socket is a key of \<open>A\<close>, not the demo
  id and not empty; no two live sockets carry the same id; and every key of \<open>A\<close> other
  than the demo id is the id of a live socket.
\<close>

definition matched ::
  "(conn \<Rightarrow> string option) \<Rightarrow> (conn \<Rightarrow> bool) \<Rightarrow> (conn \<Rightarrow> bool) \<Rightarrow> string set \<Rightarrow> bool" where
  "matched ident live is_agent A =
     ((\<forall>c. (ident c \<noteq> None) = is_agent c) \<and>
      (\<forall>c a. ident c = Some a \<longrightarrow> live c \<longrightarrow> a \<in> A \<and> a \<noteq> ''demo-agent-001'' \<and> a \<noteq> []) \<and>
      (\<forall>c c' a. ident c = Some a \<longrightarrow> ident c' = Some a \<longrightarrow> live c \<longrightarrow> live c' \<longrightarrow> c = c') \<and>
      (\<forall>a\<in>A. a \<noteq> ''demo-agent-001'' \<longrightarrow> (\<exists>c. ident c = Some a \<and> live c)))"

definition agents_match :: "hub \<Rightarrow> bool" where
  "agents_match s =
     matched (agentId \<circ> conns s) ((\<lambda>w. readyState w \<noteq> CLOSED) \<circ> conns s)
       ((\<lambda>w. clientType w = Some AgentClient) \<circ> conns s) (fst ` set (agents s))"

text \<open>
  Runs used as concrete inputs: the scenario followed by its resolution, and events
  after it (a second resolution, the agent's socket closing, both demo timers); a run in
  which a dashboard and an agent register once each; a run in which one socket registers
  as an agent twice and then closes.
\<close>

definition resolved_run :: "event list" where
  "resolved_run = two_observers @ [Message 1 (Some resolve_R1) ''u4'' ''t4'']"

definition later_events :: "event list" where
  "later_events =
     [Message 2 (Some (resolve_R1\<lparr>m_response := Some ''No''\<rparr>)) ''u5'' ''t5'',
      Close 3, Timer ''t6'', Timer ''t7'']"

definition agent_run :: "event list" where
  "agent_run =
     [Timer ''t0'',
      Message 1 (Some (envelope_of ''register-gui'' None)) ''u1'' ''t1'',
      Message 2 (Some (envelope_of ''register-agent'' (Some (no_data\<lparr>d_name := Some ''Analyst''\<rparr>))))
        ''A1'' ''t2'']"

definition twice_registered :: "event list" where
  "twice_registered =
     [Message 1 (Some (envelope_of ''register-agent'' (Some no_data))) ''A1'' ''t1'',
      Message 1 (Some (envelope_of ''register-agent'' (Some no_data))) ''A2'' ''t2'',
      Close 1]"

section \<open>Properties\<close>

subsection \<open>Runs and association lists\<close>

lemma run_append:
  "run s (es @ fs) =
     (let (s1, out1) = run s es; (s2, out2) = run s1 fs in (s2, out1 @ out2))"
  by (induction es arbitrary: s) (auto split: prod.splits)

lemma run_Cons_fst: "fst (run s (e # es)) = fst (run (fst (step s e)) es)"
  by (simp split: prod.splits)

lemma run_fst_append: "fst (run s (es @ fs)) = fst (run (fst (run s es)) fs)"
  by (simp add: run_append split: prod.splits)

lemma admissible_run_append:
  "admissible_run s (es @ fs) = (admissible_run s es \<and> admissible_run (fst (run s es)) fs)"
  by (induction es arbitrary: s) (simp_all add: run_Cons_fst del: run.simps(2))

lemma map_of_key: "map_of al k = Some v \<Longrightarrow> k \<in> fst ` set al"
  by (metis map_of_eq_None_iff option.distinct(1))

lemma list_all_update:
  "list_all P al \<Longrightarrow> P (k, v) \<Longrightarrow> list_all P (AList.update k v al)"
  by (induction al) auto

lemma comp_upd_same: "f (g a) = v \<Longrightarrow> (f \<circ> g)(a := v) = f \<circ> g"
  by (rule ext) simp

lemma keys_delete: "fst ` set (AList.delete k al) = fst ` set al - {k}"
  by (induction al) auto

lemma keys_update_known: "map_of al k = Some v \<Longrightarrow> fst ` set (AList.update k w al) = fst ` set al"
  by (auto simp: AList.dom_update dest: map_of_key)

subsection \<open>Sending\<close>

lemma and_then_simps [simp]:
  "and_then (out, None) b = (out @ fst b, snd b)"
  "and_then (out, Some e) b = (out, Some e)"
  by (simp_all add: and_then_def)

lemma for_of_sent:
  "(\<And>x. x \<in> set xs \<Longrightarrow> snd (body x) = None) \<Longrightarrow>
   for_of xs body = (concat (map (\<lambda>x. fst (body x)) xs), None)"
proof (induction xs)
  case Nil
  then show ?case by simp
next
  case (Cons x xs)
  then have "snd (body x) = None" and "for_of xs body = (concat (map (\<lambda>x. fst (body x)) xs), None)"
    by simp_all
  then show ?case by (cases "body x") simp
qed

lemma concat_if_singleton:
  "concat (map (\<lambda>x. if P x then [f x] else []) xs) = map f (filter P xs)"
  by (induction xs) simp_all

text \<open>
  A broadcast of a message that serialises reaches every dashboard whose socket is open
  and does not throw.
\<close>

lemma broadcastToGUIs_sent:
  assumes "\<not> stringify_throws s message"
  shows "broadcastToGUIs s message =
     (map (\<lambda>gui. (gui, message)) (filter (\<lambda>gui. readyState (conns s gui) = OPEN) (guiClients s)),
      None)"
proof -
  have "for_of (guiClients s) (\<lambda>gui. sendToClient s gui message) =
      (concat (map (\<lambda>gui. fst (sendToClient s gui message)) (guiClients s)), None)"
    using assms by (intro for_of_sent) (simp add: sendToClient_def)
  also have "concat (map (\<lambda>gui. fst (sendToClient s gui message)) (guiClients s)) =
      concat (map (\<lambda>gui. if readyState (conns s gui) = OPEN then [(gui, message)] else [])
        (guiClients s))"
    using assms by (simp add: sendToClient_def if_distrib cong: if_cong)
  finally show ?thesis by (simp add: broadcastToGUIs_def concat_if_singleton)
qed

text \<open>A broadcast of a message that does not serialise sends nothing.\<close>

lemma for_of_thrown:
  "(\<And>x. x \<in> set xs \<Longrightarrow> body x = ([], None) \<or> body x = ([], Some e)) \<Longrightarrow>
   fst (for_of xs body) = []"
proof (induction xs)
  case Nil
  then show ?case by simp
next
  case (Cons x xs)
  then have "fst (for_of xs body) = []" by simp
  moreover from Cons.prems have "body x = ([], None) \<or> body x = ([], Some e)" by simp
  ultimately show ?case by auto
qed

lemma broadcastToGUIs_thrown:
  assumes "stringify_throws s message"
  shows "fst (broadcastToGUIs s message) = []"
  unfolding broadcastToGUIs_def
  using assms by (intro for_of_thrown [where e = TypeError]) (simp add: sendToClient_def)

text \<open>Only a request with a back reference to a socket can fail to serialise.\<close>

lemma broadcast_without_socket:
  "\<not> stringify_throws s (AgentConnected agent)"
  "\<not> stringify_throws s (AgentDisconnected k)"
  "\<not> stringify_throws s (AgentUpdate agent)"
  "\<not> stringify_throws s (HumanInputResponse k response)"
  "r_agentWs request = None \<Longrightarrow> \<not> stringify_throws s (HumanInputRequest request)"
  by (simp_all add: stringify_throws_def)

lemma stringify_throws_request:
  "stringify_throws s (HumanInputRequest request) =
     (\<exists>w. r_agentWs request = Some w \<and> readyState (conns s w) = CLOSING)"
  by (simp add: stringify_throws_def split: option.splits)

text \<open>What a broadcast sends, in either case.\<close>

lemma broadcastToGUIs_fst:
  "fst (broadcastToGUIs s message) =
     (if stringify_throws s message then []
      else map (\<lambda>gui. (gui, message))
             (filter (\<lambda>gui. readyState (conns s gui) = OPEN) (guiClients s)))"
  by (simp add: broadcastToGUIs_sent broadcastToGUIs_thrown)

subsection \<open>The concrete states\<close>


lemma hub_after_demo_simps:
  "agents hub_after_demo = [(''demo-agent-001'', demoAgent ''t0'')]"
  "humanRequests hub_after_demo = [(''demo-request-001'', demoRequest (demoAgent ''t0'') ''t1'')]"
  "guiClients hub_after_demo = []" "conns hub_after_demo = (\<lambda>ws. new_ws)"
  "pending hub_after_demo = NoTimer"
  by (simp_all add: hub_after_demo_def start_def on_timer_def Let_def broadcastToGUIs_def)

lemma dashboard_one_simps:
  "app_agents dashboard_one = [demoAgent ''t0'']"
  "app_humanRequests dashboard_one = [demoRequest (demoAgent ''t0'') ''t1'']"
  "contentItems dashboard_one = []" "currentRequestId dashboard_one = None"
  by (simp_all add: dashboard_one_def receive_def on_message_def handleMessage_def
      envelope_of_def registerGUI_def hub_after_demo_simps sendToClient_def new_ws_def
      set_add_def Let_def addAgent_def addRequest_def AgentHUDApp_def stringify_throws_def
      demoRequest_def)

lemma dashboard_with_content_simps:
  "contentItems dashboard_with_content = [markdown_item]"
  "latestContent dashboard_with_content = Some markdown_item"
  "currentContentIndex dashboard_with_content = 0"
  by (simp_all add: dashboard_with_content_def addContentItem_def AgentHUDApp_def
      markdown_item_def falsy_def Let_def)

lemma two_observers_run:
  "agents (fst (run start two_observers)) =
     [(''A1'', \<lparr>a_id = ''A1'', a_name = ''Analyst'', a_status = ''Connected'', a_timestamp = ''t2''\<rparr>)]"
  "humanRequests (fst (run start two_observers)) = [(''R1'', R1)]"
  "guiClients (fst (run start two_observers)) = [1, 2]"
  "readyState (conns (fst (run start two_observers)) ws) = OPEN"
  "pending (fst (run start two_observers)) = CreateDemoAgent"
  "snd (run start two_observers) =
     [(1, AgentConnected \<lparr>a_id = ''A1'', a_name = ''Analyst'', a_status = ''Connected'', a_timestamp = ''t2''\<rparr>),
      (2, AgentConnected \<lparr>a_id = ''A1'', a_name = ''Analyst'', a_status = ''Connected'', a_timestamp = ''t2''\<rparr>),
      (1, HumanInputRequest R1), (2, HumanInputRequest R1)]"
  by (simp_all add: two_observers_def start_def on_message_def handleMessage_def envelope_of_def
      registerGUI_def registerAgent_def handleHumanInputRequest_def set_add_def new_ws_def
      Let_def broadcastToGUIs_def sendToClient_def or_default_def no_data_def approval_data_def
      map_get_def R1_def stringify_throws_def)

subsection \<open>A request from a socket without an Agent\<close>




subsection \<open>Dispatch by type\<close>

text \<open>No handler reads the role tag of a socket.\<close>

lemma sendToClient_roles:
  "same_but_roles s t \<Longrightarrow> sendToClient s ws message = sendToClient t ws message"
  by (simp add: same_but_roles_def sendToClient_def stringify_throws_def
      split: outbound.splits option.splits)

lemma broadcastToGUIs_roles:
  assumes "same_but_roles s t"
  shows "broadcastToGUIs s message = broadcastToGUIs t message"
proof -
  from assms have "guiClients s = guiClients t" by (simp add: same_but_roles_def)
  then show ?thesis
    by (simp add: broadcastToGUIs_def sendToClient_roles [OF assms])
qed

lemma registerGUI_roles:
  assumes "same_but_roles s t"
  shows "same_but_roles (fst (registerGUI s ws)) (fst (registerGUI t ws)) \<and>
         snd (registerGUI s ws) = snd (registerGUI t ws)"
proof -
  let ?s1 = "s\<lparr>conns := (conns s)(ws := (conns s ws)\<lparr>clientType := Some Gui\<rparr>),
                guiClients := set_add ws (guiClients s)\<rparr>"
  let ?t1 = "t\<lparr>conns := (conns t)(ws := (conns t ws)\<lparr>clientType := Some Gui\<rparr>),
                guiClients := set_add ws (guiClients t)\<rparr>"
  from assms have r: "same_but_roles ?s1 ?t1" by (simp add: same_but_roles_def)
  then have a: "agents ?s1 = agents ?t1" "humanRequests ?s1 = humanRequests ?t1"
    by (simp_all add: same_but_roles_def)
  have "snd (registerGUI s ws) = snd (registerGUI t ws)"
    unfolding registerGUI_def Let_def snd_conv a
    by (simp add: sendToClient_roles [OF r])
  with r show ?thesis by (simp add: registerGUI_def Let_def)
qed

lemma registerAgent_roles:
  assumes "same_but_roles s t"
  shows "same_but_roles (fst (registerAgent s ws d uuid now)) (fst (registerAgent t ws d uuid now)) \<and>
         snd (registerAgent s ws d uuid now) = snd (registerAgent t ws d uuid now)"
proof (cases d)
  case None
  with assms show ?thesis by (simp add: registerAgent_def)
next
  case (Some x)
  let ?agent = "\<lparr>a_id = uuid, a_name = or_default (d_name x) ''Unknown Agent'',
                       a_status = ''Connected'', a_timestamp = now\<rparr>"
  let ?s1 = "s\<lparr>conns := (conns s)(ws := (conns s ws)\<lparr>clientType := Some AgentClient,
                                                            agentId := Some uuid\<rparr>),
                     agents := AList.update uuid ?agent (agents s)\<rparr>"
  let ?t1 = "t\<lparr>conns := (conns t)(ws := (conns t ws)\<lparr>clientType := Some AgentClient,
                                                            agentId := Some uuid\<rparr>),
                     agents := AList.update uuid ?agent (agents t)\<rparr>"
  from assms have r: "same_but_roles ?s1 ?t1" by (simp add: same_but_roles_def)
  with Some show ?thesis
    by (simp add: registerAgent_def Let_def broadcastToGUIs_roles [OF r])
qed

lemma handleHumanInputRequest_roles:
  assumes "same_but_roles s t"
  shows "same_but_roles (fst (handleHumanInputRequest s ws d uuid now))
           (fst (handleHumanInputRequest t ws d uuid now)) \<and>
         snd (handleHumanInputRequest s ws d uuid now) = snd (handleHumanInputRequest t ws d uuid now)"
proof (cases d)
  case None
  with assms show ?thesis by (simp add: handleHumanInputRequest_def)
next
  case (Some x)
  from assms have e: "agentId (conns s ws) = agentId (conns t ws)" "agents s = agents t"
    "humanRequests s = humanRequests t"
    by (simp_all add: same_but_roles_def)
  have r: "same_but_roles (s\<lparr>humanRequests := h\<rparr>) (t\<lparr>humanRequests := h\<rparr>)" for h
    using assms by (simp add: same_but_roles_def)
  from Some show ?thesis
    by (simp add: handleHumanInputRequest_def Let_def e r broadcastToGUIs_roles [OF r])
qed

lemma handleHumanInputResponse_roles:
  assumes "same_but_roles s t"
  shows "same_but_roles (fst (handleHumanInputResponse s k v)) (fst (handleHumanInputResponse t k v)) \<and>
         snd (handleHumanInputResponse s k v) = snd (handleHumanInputResponse t k v)"
proof -
  from assms have e: "humanRequests s = humanRequests t" by (simp add: same_but_roles_def)
  have r: "same_but_roles (s\<lparr>humanRequests := h\<rparr>) (t\<lparr>humanRequests := h\<rparr>)" for h
    using assms by (simp add: same_but_roles_def)
  have o: "readyState (conns s w) = readyState (conns t w)" for w
    using assms by (simp add: same_but_roles_def)
  show ?thesis
    using assms
    by (simp add: handleHumanInputResponse_def Let_def e r o broadcastToGUIs_roles [OF r]
        sendToClient_roles [OF r] split: option.splits)
qed

lemma handleAgentUpdate_roles:
  assumes "same_but_roles s t"
  shows "same_but_roles (fst (handleAgentUpdate s ws d)) (fst (handleAgentUpdate t ws d)) \<and>
         snd (handleAgentUpdate s ws d) = snd (handleAgentUpdate t ws d)"
proof -
  from assms have e: "agentId (conns s ws) = agentId (conns t ws)" "agents s = agents t"
    by (simp_all add: same_but_roles_def)
  have r: "same_but_roles (s\<lparr>agents := h\<rparr>) (t\<lparr>agents := h\<rparr>)" for h
    using assms by (simp add: same_but_roles_def)
  show ?thesis
    using assms
    by (simp add: handleAgentUpdate_def Let_def e r broadcastToGUIs_roles [OF r]
        split: option.splits)
qed

lemma handleMessage_roles:
  assumes "same_but_roles s t"
  shows "same_but_roles (fst (handleMessage s ws message uuid now))
           (fst (handleMessage t ws message uuid now)) \<and>
         snd (handleMessage s ws message uuid now) = snd (handleMessage t ws message uuid now)"
  using assms registerGUI_roles [OF assms] registerAgent_roles [OF assms]
    handleHumanInputRequest_roles [OF assms] handleHumanInputResponse_roles [OF assms]
    handleAgentUpdate_roles [OF assms]
  by (simp add: handleMessage_def)

lemma on_message_roles:
  assumes "same_but_roles s t"
  shows "same_but_roles (fst (on_message s ws parsed uuid now))
           (fst (on_message t ws parsed uuid now)) \<and>
         snd (on_message s ws parsed uuid now) = snd (on_message t ws parsed uuid now)"
  using assms handleMessage_roles [OF assms]
  by (cases parsed) (simp_all add: on_message_def)

lemma two_observers_conns:
  "clientType (conns (fst (run start two_observers)) 1) = Some Gui"
  "clientType (conns (fst (run start two_observers)) 3) = Some AgentClient"
  "agentId (conns (fst (run start two_observers)) 3) = Some ''A1''"
  "agentId (conns (fst (run start two_observers)) 1) = None"
  by (simp_all add: two_observers_def start_def on_message_def handleMessage_def envelope_of_def
      registerGUI_def registerAgent_def handleHumanInputRequest_def set_add_def new_ws_def
      Let_def no_data_def approval_data_def)

text \<open>
  C2, as stated, fails. Socket 1 is a registered dashboard, so a \<^verbatim>\<open>human-input-request\<close>
  is not a message of its role; the hub handles it all the same: the ledger gains a record
  and the record is sent to the dashboards.
\<close>

theorem C2_observer_request_is_handled:
  "clientType (conns observer_only 1) = Some Gui \<and>
   humanRequests observer_only = [] \<and>
   humanRequests (fst (on_message observer_only 1
       (Some (envelope_of ''human-input-request'' (Some no_data))) ''r-1'' ''t1''))
     = [(''r-1'', \<lparr>r_id = ''r-1'', r_agent_id = None, r_agent_name = ''Unknown Agent'',
          r_request_type = ''input'', r_message = ''Human input required'',
          r_priority = ''Medium'', r_status = Pending, r_timestamp = ''t1'', r_options = [],
          r_agentWs = Some 1, r_response = None\<rparr>)] \<and>
   snd (on_message observer_only 1
       (Some (envelope_of ''human-input-request'' (Some no_data))) ''r-1'' ''t1'')
     = [(1, HumanInputRequest \<lparr>r_id = ''r-1'', r_agent_id = None, r_agent_name = ''Unknown Agent'',
          r_request_type = ''input'', r_message = ''Human input required'',
          r_priority = ''Medium'', r_status = Pending, r_timestamp = ''t1'', r_options = [],
          r_agentWs = Some 1, r_response = None\<rparr>)]"
  by (simp add: observer_only_def start_def on_message_def handleMessage_def envelope_of_def
      registerGUI_def set_add_def new_ws_def handleHumanInputRequest_def map_get_def
      no_data_def or_default_def broadcastToGUIs_def sendToClient_def stringify_throws_def
      Let_def)

lemma handled_whatever_the_role:
  "m_type message = Some ''register-gui'' \<Longrightarrow>
     ws \<in> set (guiClients (fst (on_message s ws (Some message) uuid now))) \<and>
     clientType (conns (fst (on_message s ws (Some message) uuid now)) ws) = Some Gui"
  "m_type message = Some ''register-agent'' \<Longrightarrow> m_data message = Some d \<Longrightarrow>
     map_of (agents (fst (on_message s ws (Some message) uuid now))) uuid =
       Some \<lparr>a_id = uuid, a_name = or_default (d_name d) ''Unknown Agent'',
             a_status = ''Connected'', a_timestamp = now\<rparr> \<and>
     agentId (conns (fst (on_message s ws (Some message) uuid now)) ws) = Some uuid \<and>
     clientType (conns (fst (on_message s ws (Some message) uuid now)) ws) = Some AgentClient"
  "m_type message = Some ''human-input-request'' \<Longrightarrow> m_data message = Some d \<Longrightarrow>
     (\<exists>r. map_of (humanRequests (fst (on_message s ws (Some message) uuid now))) uuid = Some r \<and>
          r_status r = Pending \<and> r_agentWs r = Some ws)"
  "m_type message = Some ''human-input-response'' \<Longrightarrow> m_requestId message = Some k \<Longrightarrow>
   map_of (humanRequests s) k = Some r0 \<Longrightarrow>
     map_of (humanRequests (fst (on_message s ws (Some message) uuid now))) k =
       Some (r0\<lparr>r_status := Completed, r_response := m_response message\<rparr>)"
  "m_type message = Some ''agent-update'' \<Longrightarrow> agentId (conns s ws) = Some k \<Longrightarrow>
   map_of (agents s) k = Some a0 \<Longrightarrow>
     map_of (agents (fst (on_message s ws (Some message) uuid now))) k =
       Some (assign a0 (m_data message))"
  by (simp_all add: on_message_def handleMessage_def registerGUI_def registerAgent_def
      handleHumanInputRequest_def handleHumanInputResponse_def handleAgentUpdate_def
      set_add_def Let_def AList.update_conv')

lemma dropped:
  assumes "m_type message \<notin> Some ` {''register-gui'', ''register-agent'', ''human-input-request'',
                                      ''human-input-response'', ''agent-update''} \<or>
           (m_type message = Some ''agent-update'' \<and>
              map_get (agents s) (agentId (conns s ws)) = None) \<or>
           (m_type message = Some ''human-input-response'' \<and>
              map_get (humanRequests s) (m_requestId message) = None) \<or>
           (m_type message \<in> Some ` {''register-agent'', ''human-input-request''} \<and>
              m_data message = None)"
  shows "on_message s ws (Some message) uuid now = (s, [])"
  using assms
  by (auto simp: on_message_def handleMessage_def handleAgentUpdate_def
      handleHumanInputResponse_def registerAgent_def handleHumanInputRequest_def map_get_def
      split: option.splits)

text \<open>
  C2, amended: \<^verbatim>\<open>handleMessage\<close> looks at the type of a message only, never at the role
  of its socket. Two hubs that differ only in the role tags of their sockets handle every
  message alike (same sends, and results that again differ only in role tags). So on any
  socket \<^verbatim>\<open>register-gui\<close> adds the socket to the fan-out set, \<^verbatim>\<open>register-agent\<close> with
  data creates the Agent record, \<^verbatim>\<open>human-input-request\<close> with data creates a Pending
  request, \<^verbatim>\<open>human-input-response\<close> naming a request of the ledger completes it, and
  \<^verbatim>\<open>agent-update\<close> on a socket that carries the id of an Agent record patches that
  record. A message is dropped, with the hub unchanged and nothing sent to anyone, when
  its type is none of the five inbound types, when it is an \<^verbatim>\<open>agent-update\<close> on a
  socket with no Agent record, when it is a \<^verbatim>\<open>human-input-response\<close> that names no
  request of the ledger, or when it is a \<^verbatim>\<open>register-agent\<close> or
  \<^verbatim>\<open>human-input-request\<close> without a data object (the handler's error is caught).
\<close>

theorem C2_dispatch_by_type_alone:
  "(same_but_roles s t \<longrightarrow>
      same_but_roles (fst (on_message s ws parsed uuid now)) (fst (on_message t ws parsed uuid now)) \<and>
      snd (on_message s ws parsed uuid now) = snd (on_message t ws parsed uuid now)) \<and>
   (m_type message = Some ''register-gui'' \<longrightarrow>
      ws \<in> set (guiClients (fst (on_message s ws (Some message) uuid now))) \<and>
      clientType (conns (fst (on_message s ws (Some message) uuid now)) ws) = Some Gui) \<and>
   (m_type message = Some ''register-agent'' \<and> m_data message = Some d \<longrightarrow>
      map_of (agents (fst (on_message s ws (Some message) uuid now))) uuid =
        Some \<lparr>a_id = uuid, a_name = or_default (d_name d) ''Unknown Agent'',
              a_status = ''Connected'', a_timestamp = now\<rparr> \<and>
      agentId (conns (fst (on_message s ws (Some message) uuid now)) ws) = Some uuid \<and>
      clientType (conns (fst (on_message s ws (Some message) uuid now)) ws) = Some AgentClient) \<and>
   (m_type message = Some ''human-input-request'' \<and> m_data message = Some d \<longrightarrow>
      (\<exists>r. map_of (humanRequests (fst (on_message s ws (Some message) uuid now))) uuid = Some r \<and>
           r_status r = Pending \<and> r_agentWs r = Some ws)) \<and>
   (m_type message = Some ''human-input-response'' \<and> m_requestId message = Some k \<and>
    map_of (humanRequests s) k = Some r0 \<longrightarrow>
      map_of (humanRequests (fst (on_message s ws (Some message) uuid now))) k =
        Some (r0\<lparr>r_status := Completed, r_response := m_response message\<rparr>)) \<and>
   (m_type message = Some ''agent-update'' \<and> agentId (conns s ws) = Some k \<and>
    map_of (agents s) k = Some a0 \<longrightarrow>
      map_of (agents (fst (on_message s ws (Some message) uuid now))) k =
        Some (assign a0 (m_data message))) \<and>
   (m_type message \<notin> Some ` {''register-gui'', ''register-agent'', ''human-input-request'',
                              ''human-input-response'', ''agent-update''} \<or>
    (m_type message = Some ''agent-update'' \<and>
       map_get (agents s) (agentId (conns s ws)) = None) \<or>
    (m_type message = Some ''human-input-response'' \<and>
       map_get (humanRequests s) (m_requestId message) = None) \<or>
    (m_type message \<in> Some ` {''register-agent'', ''human-input-request''} \<and>
       m_data message = None) \<longrightarrow>
      on_message s ws (Some message) uuid now = (s, []))"
proof (intro conjI impI)
  show "same_but_roles (fst (on_message s ws parsed uuid now)) (fst (on_message t ws parsed uuid now))"
    if "same_but_roles s t" using on_message_roles [OF that] by simp
  show "snd (on_message s ws parsed uuid now) = snd (on_message t ws parsed uuid now)"
    if "same_but_roles s t" using on_message_roles [OF that] by simp
qed (simp_all add: handled_whatever_the_role dropped)

lemma same_but_roles_all_agents: "same_but_roles s (all_agents s)"
  by (simp add: same_but_roles_def all_agents_def)

text \<open>
  C2, amended, at the scenario. The agent's socket 3 sends the
  \<^verbatim>\<open>human-input-response\<close> for R1 and R1 is completed; the hub in which every socket is
  tagged as an agent sends, for the same message from socket 1, what the real one sends;
  a message of an unknown type from the dashboard's socket is dropped.
\<close>

theorem C2_dispatch_by_type_alone_witness:
  "clientType (conns (fst (run start two_observers)) 3) = Some AgentClient \<and>
   map_of (humanRequests (fst (on_message (fst (run start two_observers)) 3
       (Some resolve_R1) ''u4'' ''t4''))) ''R1''
     = Some (R1\<lparr>r_status := Completed, r_response := Some ''Yes''\<rparr>) \<and>
   snd (on_message (all_agents (fst (run start two_observers))) 1 (Some resolve_R1) ''u4'' ''t4'')
     = snd (on_message (fst (run start two_observers)) 1 (Some resolve_R1) ''u4'' ''t4'') \<and>
   on_message observer_only 1 (Some (envelope_of ''clear-requests'' None)) ''u'' ''t''
     = (observer_only, [])"
proof -
  have 1: "map_of (humanRequests (fst (on_message (fst (run start two_observers)) 3
       (Some resolve_R1) ''u4'' ''t4''))) ''R1''
     = Some (R1\<lparr>r_status := Completed, r_response := Some ''Yes''\<rparr>)"
    using C2_dispatch_by_type_alone [where s = "fst (run start two_observers)" and ws = 3
        and message = resolve_R1 and k = "''R1''" and ?r0.0 = R1 and uuid = "''u4''"
        and now = "''t4''"]
    by (simp add: resolve_R1_def two_observers_run)
  have 2: "snd (on_message (all_agents (fst (run start two_observers))) 1 (Some resolve_R1) ''u4'' ''t4'')
     = snd (on_message (fst (run start two_observers)) 1 (Some resolve_R1) ''u4'' ''t4'')"
    using C2_dispatch_by_type_alone [where s = "fst (run start two_observers)"
        and t = "all_agents (fst (run start two_observers))" and ws = 1
        and parsed = "Some resolve_R1" and uuid = "''u4''" and now = "''t4''"]
    by (simp add: same_but_roles_all_agents)
  have 3: "on_message observer_only 1 (Some (envelope_of ''clear-requests'' None)) ''u'' ''t''
     = (observer_only, [])"
    using C2_dispatch_by_type_alone [where s = observer_only and ws = 1
        and message = "envelope_of ''clear-requests'' None" and uuid = "''u''" and now = "''t''"]
    by (simp add: envelope_of_def)
  from two_observers_conns(2) 1 2 3 show ?thesis by (intro conjI)
qed

subsection \<open>What an event does to the ledger\<close>

text \<open>
  What a message does to the ledger: nothing, a new Pending request under the fresh id,
  or the completion of a request that is there, with the \<^verbatim>\<open>response\<close> field of the
  envelope as its response.
\<close>

lemma on_message_requests:
  "humanRequests (fst (on_message s ws parsed uuid now)) = humanRequests s \<or>
   (\<exists>r. humanRequests (fst (on_message s ws parsed uuid now)) =
           AList.update uuid r (humanRequests s) \<and> r_status r = Pending \<and> r_response r = None) \<or>
   (\<exists>k r0 m. parsed = Some m \<and> m_type m = Some ''human-input-response'' \<and>
        map_of (humanRequests s) k = Some r0 \<and>
        humanRequests (fst (on_message s ws parsed uuid now)) =
           AList.update k (r0\<lparr>r_status := Completed, r_response := m_response m\<rparr>)
             (humanRequests s))"
proof (cases parsed)
  case None
  then show ?thesis by (simp add: on_message_def)
next
  case (Some m)
  consider (gui) "m_type m = Some ''register-gui''"
    | (agent) "m_type m = Some ''register-agent''"
    | (request) "m_type m = Some ''human-input-request''"
    | (response) "m_type m = Some ''human-input-response''"
    | (update) "m_type m = Some ''agent-update''"
    | (other) "m_type m \<noteq> Some ''register-gui''" "m_type m \<noteq> Some ''register-agent''"
        "m_type m \<noteq> Some ''human-input-request''" "m_type m \<noteq> Some ''human-input-response''"
        "m_type m \<noteq> Some ''agent-update''"
    by blast
  then show ?thesis
  proof cases
    case gui
    with Some show ?thesis
      by (simp add: on_message_def handleMessage_def registerGUI_def Let_def)
  next
    case agent
    with Some show ?thesis
      by (cases "m_data m") (simp_all add: on_message_def handleMessage_def registerAgent_def Let_def)
  next
    case request
    show ?thesis
    proof (cases "m_data m")
      case None
      with Some request show ?thesis
        by (simp add: on_message_def handleMessage_def handleHumanInputRequest_def)
    next
      case d: (Some d)
      have "\<exists>r. humanRequests (fst (on_message s ws parsed uuid now)) =
           AList.update uuid r (humanRequests s) \<and> r_status r = Pending \<and> r_response r = None"
        unfolding Some on_message_def handleMessage_def handleHumanInputRequest_def
        using request d
        by (simp add: Let_def) (rule exI, intro conjI, rule refl, simp_all)
      then show ?thesis by blast
    qed
  next
    case response
    show ?thesis
    proof (cases "m_requestId m")
      case None
      with Some response show ?thesis
        by (simp add: on_message_def handleMessage_def handleHumanInputResponse_def)
    next
      case k: (Some k)
      show ?thesis
      proof (cases "map_of (humanRequests s) k")
        case None
        with Some response k show ?thesis
          by (simp add: on_message_def handleMessage_def handleHumanInputResponse_def)
      next
        case r0: (Some r0)
        with Some response k have "humanRequests (fst (on_message s ws parsed uuid now)) =
           AList.update k (r0\<lparr>r_status := Completed, r_response := m_response m\<rparr>)
             (humanRequests s)"
          by (simp add: on_message_def handleMessage_def handleHumanInputResponse_def Let_def)
        with r0 Some response show ?thesis by blast
      qed
    qed
  next
    case update
    with Some show ?thesis
      by (simp add: on_message_def handleMessage_def handleAgentUpdate_def Let_def
          split: option.splits)
  next
    case other
    with Some show ?thesis by (simp add: on_message_def handleMessage_def)
  qed
qed

lemma on_message_pending: "pending (fst (on_message s ws parsed uuid now)) = pending s"
proof (cases parsed)
  case None
  then show ?thesis by (simp add: on_message_def)
next
  case (Some m)
  have a: "pending (fst (registerGUI s ws)) = pending s"
    by (simp add: registerGUI_def Let_def)
  have b: "pending (fst (registerAgent s ws d uuid now)) = pending s" for d
    by (simp add: registerAgent_def Let_def split: option.splits)
  have c: "pending (fst (handleHumanInputRequest s ws d uuid now)) = pending s" for d
    by (simp add: handleHumanInputRequest_def Let_def split: option.splits)
  have d: "pending (fst (handleHumanInputResponse s k v)) = pending s" for k v
    by (simp add: handleHumanInputResponse_def Let_def split: option.splits)
  have e: "pending (fst (handleAgentUpdate s ws u)) = pending s" for u
    by (simp add: handleAgentUpdate_def Let_def split: option.splits)
  from Some show ?thesis
    by (simp add: on_message_def handleMessage_def a b c d e)
qed

lemma on_close_requests: "humanRequests (fst (on_close s ws)) = humanRequests s"
  by (simp add: on_close_def handleDisconnection_def Let_def split: option.splits)

lemma on_close_pending: "pending (fst (on_close s ws)) = pending s"
  by (simp add: on_close_def handleDisconnection_def Let_def split: option.splits)

lemma on_message_request_keys:
  "fst ` set (humanRequests (fst (on_message s ws parsed uuid now)))
     \<subseteq> insert uuid (fst ` set (humanRequests s))"
  using on_message_requests [of s ws parsed uuid now]
proof (elim disjE exE conjE)
  assume "humanRequests (fst (on_message s ws parsed uuid now)) = humanRequests s"
  then show ?thesis by auto
next
  fix r
  assume "humanRequests (fst (on_message s ws parsed uuid now)) =
            AList.update uuid r (humanRequests s)"
  then show ?thesis by (simp add: AList.dom_update)
next
  fix k r0 m
  assume "map_of (humanRequests s) k = Some r0"
    and "humanRequests (fst (on_message s ws parsed uuid now)) =
            AList.update k (r0\<lparr>r_status := Completed, r_response := m_response m\<rparr>)
              (humanRequests s)"
  then show ?thesis using map_of_key [of "humanRequests s" k r0]
    by (auto simp: AList.dom_update)
qed

lemma step_keeps_requests:
  "fst ` set (humanRequests s) \<subseteq> fst ` set (humanRequests (fst (step s e)))"
proof (cases e)
  case (Message ws parsed uuid now)
  from on_message_requests [of s ws parsed uuid now] show ?thesis
    unfolding Message step.simps
    by (elim disjE exE conjE) (auto simp: AList.dom_update)
next
  case (Closing ws)
  then show ?thesis by simp
next
  case (Close ws)
  then show ?thesis by (simp add: on_close_requests)
next
  case (Timer now)
  then show ?thesis
    by (auto simp: on_timer_def Let_def AList.dom_update split: pending.splits)
qed

subsection \<open>Resolving a request\<close>

text \<open>
  The hub's side of a resolution: a Pending request that is found becomes Completed and
  holds the response; the response goes to the socket the request came from when that
  socket is open, and the request goes to every dashboard whose socket is open. While
  the socket the request came from is in its closing handshake the request does not
  serialise, and nothing is sent.
\<close>

lemma resolve_pending_request:
  assumes "map_of (humanRequests s) k = Some request0" and "r_status request0 = Pending"
  shows "fst (handleHumanInputResponse s (Some k) response) =
           s\<lparr>humanRequests := AList.update k
               (request0\<lparr>r_status := Completed, r_response := response\<rparr>) (humanRequests s)\<rparr> \<and>
         fst (snd (handleHumanInputResponse s (Some k) response)) =
           (case r_agentWs request0 of
              Some w \<Rightarrow>
                if readyState (conns s w) = OPEN then [(w, HumanInputResponse k response)] else []
            | None \<Rightarrow> []) @
           (if \<exists>w. r_agentWs request0 = Some w \<and> readyState (conns s w) = CLOSING then []
            else map (\<lambda>gui. (gui, HumanInputRequest
                          (request0\<lparr>r_status := Completed, r_response := response\<rparr>)))
                   (filter (\<lambda>gui. readyState (conns s gui) = OPEN) (guiClients s)))"
proof -
  let ?request = "request0\<lparr>r_status := Completed, r_response := response\<rparr>"
  let ?s1 = "s\<lparr>humanRequests := AList.update k ?request (humanRequests s)\<rparr>"
  have b: "fst (broadcastToGUIs ?s1 (HumanInputRequest ?request)) =
      (if \<exists>w. r_agentWs request0 = Some w \<and> readyState (conns s w) = CLOSING then []
       else map (\<lambda>gui. (gui, HumanInputRequest ?request))
              (filter (\<lambda>gui. readyState (conns s gui) = OPEN) (guiClients s)))"
    by (auto simp: broadcastToGUIs_fst stringify_throws_request)
  have p: "(case r_agentWs ?request of
              Some w \<Rightarrow> if readyState (conns ?s1 w) = OPEN
                        then sendToClient ?s1 w (HumanInputResponse k response) else ([], None)
            | None \<Rightarrow> ([], None)) =
           ((case r_agentWs request0 of
              Some w \<Rightarrow>
                if readyState (conns s w) = OPEN then [(w, HumanInputResponse k response)] else []
            | None \<Rightarrow> []), None)"
    by (simp add: sendToClient_def stringify_throws_def split: option.splits)
  from assms have "handleHumanInputResponse s (Some k) response =
      (?s1, and_then
         (case r_agentWs ?request of
              Some w \<Rightarrow> if readyState (conns ?s1 w) = OPEN
                        then sendToClient ?s1 w (HumanInputResponse k response) else ([], None)
            | None \<Rightarrow> ([], None))
         (broadcastToGUIs ?s1 (HumanInputRequest ?request)))"
    by (simp add: handleHumanInputResponse_def Let_def)
  then show ?thesis
    by (simp only: p and_then_simps fst_conv snd_conv b)
qed

lemma resolve_pending_request_witness:
  "fst (handleHumanInputResponse hub_after_demo (Some ''demo-request-001'') (Some ''Yes, proceed''))
     = hub_after_demo\<lparr>humanRequests := [(''demo-request-001'', resolved_demoRequest)]\<rparr> \<and>
   fst (snd (handleHumanInputResponse hub_after_demo (Some ''demo-request-001'')
       (Some ''Yes, proceed''))) = []"
  using resolve_pending_request [of hub_after_demo "''demo-request-001''"
      "demoRequest (demoAgent ''t0'') ''t1''" "Some ''Yes, proceed''"]
  by (simp add: hub_after_demo_simps resolved_demoRequest_def demoRequest_def)

text \<open>
  C3 at the scenario of the specification with a second dashboard. The hub completes R1,
  answers the agent on socket 3 and sends the completed request to both dashboards. The
  dashboard on socket 2 already holds a request with this id, so \<^verbatim>\<open>addRequest\<close> drops
  the event: its copy of R1 is still Pending and has no response.
\<close>

theorem C3_dashboard_keeps_pending_copy:
  "humanRequests (fst (on_message (fst (run start two_observers)) 1 (Some resolve_R1) ''u4'' ''t4''))
     = [(''R1'', R1\<lparr>r_status := Completed, r_response := Some ''Yes''\<rparr>)] \<and>
   snd (on_message (fst (run start two_observers)) 1 (Some resolve_R1) ''u4'' ''t4'')
     = [(3, HumanInputResponse ''R1'' (Some ''Yes'')),
        (1, HumanInputRequest (R1\<lparr>r_status := Completed, r_response := Some ''Yes''\<rparr>)),
        (2, HumanInputRequest (R1\<lparr>r_status := Completed, r_response := Some ''Yes''\<rparr>))] \<and>
   app_humanRequests (receive 2 AgentHUDApp (snd (run start two_observers))) = [R1] \<and>
   app_humanRequests (receive 2 (receive 2 AgentHUDApp (snd (run start two_observers)))
       (snd (on_message (fst (run start two_observers)) 1 (Some resolve_R1) ''u4'' ''t4''))) = [R1] \<and>
   r_status R1 = Pending \<and> r_response R1 = None"
  by (simp add: two_observers_run on_message_def handleMessage_def resolve_R1_def
      handleHumanInputResponse_def Let_def broadcastToGUIs_def sendToClient_def
      stringify_throws_def receive_def addAgent_def addRequest_def AgentHUDApp_def R1_def)

subsection \<open>The ledger is never emptied by the hub\<close>

text \<open>
  C5, as stated, fails. The dashboard holds the demo request. When the user declines the
  confirmation, \<^verbatim>\<open>clearHumanRequests\<close> leaves the list as it is. When the user
  confirms, the dashboard's own list is emptied and nothing is sent, so the hub, which
  has no message for clearing, still holds the request in its ledger.
\<close>

theorem C5_clear_is_local_and_confirmed:
  "app_humanRequests dashboard_one = [demoRequest (demoAgent ''t0'') ''t1''] \<and>
   app_humanRequests (fst (clearHumanRequests dashboard_one False))
     = [demoRequest (demoAgent ''t0'') ''t1''] \<and>
   app_humanRequests (fst (clearHumanRequests dashboard_one True)) = [] \<and>
   snd (clearHumanRequests dashboard_one True) = [] \<and>
   humanRequests hub_after_demo = [(''demo-request-001'', demoRequest (demoAgent ''t0'') ''t1'')]"
  by (simp add: clearHumanRequests_def dashboard_one_simps hub_after_demo_simps)

text \<open>
  C5, amended: \<^verbatim>\<open>clearHumanRequests\<close> empties the dashboard's own list of requests, and
  resets the current request, when the user confirms; it changes nothing when the user
  declines; either way it sends nothing. The ledger of the hub is out of its reach: no
  event the hub handles removes a request id from the ledger.
\<close>

theorem C5_clear:
  "clearHumanRequests a True = (a\<lparr>app_humanRequests := [], currentRequestId := None\<rparr>, []) \<and>
   clearHumanRequests a False = (a, []) \<and>
   fst ` set (humanRequests s) \<subseteq> fst ` set (humanRequests (fst (step s e)))"
  by (simp add: clearHumanRequests_def step_keeps_requests)

subsection \<open>Replay to a new dashboard\<close>

lemma for_of_until_throw:
  "for_of xs (\<lambda>x. if throws x then ([], Some e) else ([f x], None)) =
     (map f (takeWhile (\<lambda>x. \<not> throws x) xs), if \<exists>x\<in>set xs. throws x then Some e else None)"
  by (induction xs) auto

lemma for_of_all:
  "for_of xs (\<lambda>x. ([f x], None)) = (map f xs, None)"
  by (induction xs) simp_all

text \<open>
  The replay to a socket that is open: one \<^verbatim>\<open>agent-connected\<close> per Agent record, then
  one \<^verbatim>\<open>human-input-request\<close> per request of the ledger up to the first request that
  does not serialise, where the replay ends.
\<close>

lemma registerGUI_replay:
  assumes "readyState (conns s ws) = OPEN"
  shows "fst (registerGUI s ws) =
           s\<lparr>conns := (conns s)(ws := (conns s ws)\<lparr>clientType := Some Gui\<rparr>),
             guiClients := set_add ws (guiClients s)\<rparr> \<and>
         fst (snd (registerGUI s ws)) =
           map (\<lambda>(k, agent). (ws, AgentConnected agent)) (agents s) @
           map (\<lambda>(k, request). (ws, HumanInputRequest request))
             (takeWhile (\<lambda>(k, request). \<not> stringify_throws s (HumanInputRequest request))
                (humanRequests s))"
proof -
  let ?s1 = "s\<lparr>conns := (conns s)(ws := (conns s ws)\<lparr>clientType := Some Gui\<rparr>),
                guiClients := set_add ws (guiClients s)\<rparr>"
  have t: "stringify_throws ?s1 message = stringify_throws s message" for message
    by (simp add: stringify_throws_def split: outbound.splits option.splits)
  have a: "for_of (agents s) (\<lambda>(k, agent). sendToClient ?s1 ws (AgentConnected agent)) =
      (map (\<lambda>(k, agent). (ws, AgentConnected agent)) (agents s), None)"
  proof -
    have e: "(\<lambda>(k, agent). sendToClient ?s1 ws (AgentConnected agent)) =
        (\<lambda>x. ([(ws, AgentConnected (snd x))], None))"
      using assms by (auto simp: sendToClient_def stringify_throws_def)
    show ?thesis
      unfolding e for_of_all by (simp add: case_prod_unfold)
  qed
  have r: "for_of (humanRequests s)
        (\<lambda>(k, request). sendToClient ?s1 ws (HumanInputRequest request)) =
      (map (\<lambda>(k, request). (ws, HumanInputRequest request))
         (takeWhile (\<lambda>(k, request). \<not> stringify_throws s (HumanInputRequest request))
            (humanRequests s)),
       if \<exists>x\<in>set (humanRequests s). stringify_throws s (HumanInputRequest (snd x))
       then Some TypeError else None)"
  proof -
    have e: "(\<lambda>(k, request). sendToClient ?s1 ws (HumanInputRequest request)) =
        (\<lambda>x. if stringify_throws s (HumanInputRequest (snd x)) then ([], Some TypeError)
             else ([(ws, HumanInputRequest (snd x))], None))"
      using assms by (auto simp: sendToClient_def t)
    show ?thesis
      unfolding e for_of_until_throw by (simp add: case_prod_unfold)
  qed
  show ?thesis
    by (simp add: registerGUI_def Let_def a r)
qed

text \<open>
  When every request of the ledger serialises (no request came from a socket that is now
  in its closing handshake), a \<^verbatim>\<open>register-gui\<close> on an open socket is answered by the
  whole replay: what the hub sends from then on starts with one \<^verbatim>\<open>agent-connected\<close>
  per Agent record followed by one \<^verbatim>\<open>human-input-request\<close> per request of the ledger,
  all to that socket and in the order of the Maps; whatever later events cause is sent
  after them.
\<close>

lemma replay_on_registration:
  assumes "readyState (conns s ws) = OPEN" and "m_type message = Some ''register-gui''"
    and "list_all (\<lambda>(k, request). \<not> stringify_throws s (HumanInputRequest request))
           (humanRequests s)"
  shows "snd (run s (Message ws (Some message) uuid now # es)) =
           map (\<lambda>(k, agent). (ws, AgentConnected agent)) (agents s) @
           map (\<lambda>(k, request). (ws, HumanInputRequest request)) (humanRequests s) @
           snd (run (fst (on_message s ws (Some message) uuid now)) es) \<and>
         length (filter is_request_event (snd (on_message s ws (Some message) uuid now)))
           = length (humanRequests s) \<and>
         ws \<in> set (guiClients (fst (on_message s ws (Some message) uuid now))) \<and>
         clientType (conns (fst (on_message s ws (Some message) uuid now)) ws) = Some Gui"
proof -
  have m: "on_message s ws (Some message) uuid now =
      (fst (registerGUI s ws), fst (snd (registerGUI s ws)))"
    using assms(2) by (simp add: on_message_def handleMessage_def)
  from assms(3) have w: "takeWhile (\<lambda>(k, request). \<not> stringify_throws s (HumanInputRequest request))
      (humanRequests s) = humanRequests s"
    by (simp add: list_all_iff takeWhile_eq_all_conv)
  have f1: "filter is_request_event (map (\<lambda>(k, agent). (ws, AgentConnected agent)) xs) = []"
    for xs :: "(string \<times> agent) list"
    by (induction xs) (auto simp: is_request_event_def)
  have f2: "filter is_request_event (map (\<lambda>(k, request). (ws, HumanInputRequest request)) xs)
       = map (\<lambda>(k, request). (ws, HumanInputRequest request)) xs"
    for xs :: "(string \<times> request) list"
    by (induction xs) (auto simp: is_request_event_def)
  show ?thesis
    by (simp add: m registerGUI_replay [OF assms(1)] w f1 f2 set_add_def split: prod.splits)
qed

lemma replay_on_registration_witness:
  "snd (run hub_after_demo [Message 1 (Some (envelope_of ''register-gui'' None)) [] []]) =
     [(1, AgentConnected (demoAgent ''t0'')),
      (1, HumanInputRequest (demoRequest (demoAgent ''t0'') ''t1''))]"
  using replay_on_registration [of hub_after_demo 1 "envelope_of ''register-gui'' None" "[]" "[]" "[]"]
  by (simp add: hub_after_demo_simps new_ws_def envelope_of_def stringify_throws_def
      demoRequest_def)

lemma agent_closing_state:
  "admissible_run start
     (agent_closing @ [Message 4 (Some (envelope_of ''register-gui'' None)) ''u5'' ''t5''])"
  "agents (fst (run start agent_closing)) =
     [(''A1'', \<lparr>a_id = ''A1'', a_name = ''Analyst'', a_status = ''Connected'', a_timestamp = ''t2''\<rparr>)]"
  "humanRequests (fst (run start agent_closing)) = [(''R1'', R1)]"
  "guiClients (fst (run start agent_closing)) = [1, 2]"
  "readyState (conns (fst (run start agent_closing)) 3) = CLOSING"
  "readyState (conns (fst (run start agent_closing)) 4) = OPEN"
  by (simp_all add: agent_closing_def run_fst_append admissible_run_append two_observers_run
      fresh_def)
    (simp_all add: two_observers_def start_def on_message_def handleMessage_def envelope_of_def
      registerGUI_def registerAgent_def handleHumanInputRequest_def set_add_def new_ws_def
      Let_def broadcastToGUIs_def sendToClient_def or_default_def no_data_def approval_data_def
      map_get_def R1_def stringify_throws_def fresh_def)

text \<open>
  C7 at a hub that holds K = 1 request, R1, whose agent's socket 3 has begun to close. A
  dashboard registers on the open socket 4. The replay sends the Agent record, then
  serialising R1 throws: the new dashboard is in the fan-out set and has received none
  of the K request events.
\<close>

theorem C7_replay_stops_at_closing_socket:
  "admissible_run start
     (agent_closing @ [Message 4 (Some (envelope_of ''register-gui'' None)) ''u5'' ''t5'']) \<and>
   humanRequests (fst (run start agent_closing)) = [(''R1'', R1)] \<and>
   r_agentWs R1 = Some 3 \<and>
   readyState (conns (fst (run start agent_closing)) 3) = CLOSING \<and>
   readyState (conns (fst (run start agent_closing)) 4) = OPEN \<and>
   snd (on_message (fst (run start agent_closing)) 4
          (Some (envelope_of ''register-gui'' None)) ''u5'' ''t5'')
     = [(4, AgentConnected \<lparr>a_id = ''A1'', a_name = ''Analyst'', a_status = ''Connected'',
                             a_timestamp = ''t2''\<rparr>)] \<and>
   guiClients (fst (on_message (fst (run start agent_closing)) 4
          (Some (envelope_of ''register-gui'' None)) ''u5'' ''t5'')) = [1, 2, 4] \<and>
   filter is_request_event (snd (on_message (fst (run start agent_closing)) 4
          (Some (envelope_of ''register-gui'' None)) ''u5'' ''t5'')) = []"
proof -
  let ?s = "fst (run start agent_closing)"
  let ?m = "Some (envelope_of ''register-gui'' None)"
  have r: "on_message ?s 4 ?m ''u5'' ''t5'' = (fst (registerGUI ?s 4), fst (snd (registerGUI ?s 4)))"
    by (simp add: on_message_def handleMessage_def envelope_of_def)
  have t: "stringify_throws ?s (HumanInputRequest R1)"
    by (simp add: stringify_throws_def R1_def agent_closing_state)
  note g = registerGUI_replay [OF agent_closing_state(6)]
  have 1: "snd (on_message ?s 4 ?m ''u5'' ''t5'')
     = [(4, AgentConnected \<lparr>a_id = ''A1'', a_name = ''Analyst'', a_status = ''Connected'',
                             a_timestamp = ''t2''\<rparr>)]"
    by (simp add: r g agent_closing_state(2,3) t)
  have 2: "guiClients (fst (on_message ?s 4 ?m ''u5'' ''t5'')) = [1, 2, 4]"
    by (simp add: r g agent_closing_state(4) set_add_def)
  have 3: "filter is_request_event (snd (on_message ?s 4 ?m ''u5'' ''t5'')) = []"
    by (simp only: 1) (simp add: is_request_event_def)
  have 4: "r_agentWs R1 = Some 3"
    by (simp add: R1_def)
  show ?thesis
    using agent_closing_state(1,3,5,6) 1 2 3 4 by (intro conjI)
qed

subsection \<open>Deduplication in the dashboard\<close>

text \<open>
  C8: appending a content item whose id is a real id (not missing, not empty) and is the id
  of an item of the history changes nothing: the history keeps its length, and the latest
  item and the cursor stay where they are.
\<close>

theorem C8_append_known_id:
  assumes "c \<in> set (contentItems a)" and "c_id c = c_id contentItem"
    and "\<not> falsy (c_id contentItem)"
  shows "addContentItem a contentItem date_now random = a \<and>
         length (contentItems (addContentItem a contentItem date_now random))
           = length (contentItems a) \<and>
         latestContent (addContentItem a contentItem date_now random) = latestContent a \<and>
         currentContentIndex (addContentItem a contentItem date_now random)
           = currentContentIndex a"
proof -
  from assms(1,2) have "find (\<lambda>c. c_id c = c_id contentItem) (contentItems a) \<noteq> None"
    by (auto simp: find_None_iff)
  with assms(3) have "addContentItem a contentItem date_now random = a"
    by (auto simp: addContentItem_def)
  then show ?thesis by simp
qed

text \<open>C8 at a history of one item: the same id with another title is appended again.\<close>

theorem C8_append_known_id_witness:
  "contentItems (addContentItem dashboard_with_content
       (markdown_item\<lparr>c_title := Some ''Again''\<rparr>) ''18'' ''xyz'') = [markdown_item] \<and>
   latestContent (addContentItem dashboard_with_content
       (markdown_item\<lparr>c_title := Some ''Again''\<rparr>) ''18'' ''xyz'') = Some markdown_item \<and>
   currentContentIndex (addContentItem dashboard_with_content
       (markdown_item\<lparr>c_title := Some ''Again''\<rparr>) ''18'' ''xyz'') = 0"
  using C8_append_known_id [of markdown_item dashboard_with_content
      "markdown_item\<lparr>c_title := Some ''Again''\<rparr>" "''18''" "''xyz''"]
  by (simp add: dashboard_with_content_simps falsy_def markdown_item_def)

text \<open>
  C10: a \<^verbatim>\<open>human-input-request\<close> event whose id is the id of a request of the
  dashboard's list leaves the dashboard as it is, whatever else the event carries; so
  does an \<^verbatim>\<open>agent-connected\<close> event whose id is the id of an agent of the list.
\<close>

theorem C10_known_id_is_dropped:
  "(r \<in> set (app_humanRequests a) \<and> r_id r = r_id request \<longrightarrow>
      handleWebSocketMessage a (HumanInputRequest request) = a) \<and>
   (x \<in> set (app_agents a) \<and> a_id x = a_id agent \<longrightarrow>
      handleWebSocketMessage a (AgentConnected agent) = a)"
  by (auto simp: addRequest_def addAgent_def find_None_iff split: option.splits)

text \<open>
  C10 at the dashboard that holds the demo request and the demo agent: the request
  arrives again as Completed with a response, the agent with another status.
\<close>

theorem C10_known_id_is_dropped_witness:
  "r_id resolved_demoRequest = r_id (demoRequest (demoAgent ''t0'') ''t1'') \<and>
   r_status resolved_demoRequest = Completed \<and>
   app_humanRequests (handleWebSocketMessage dashboard_one (HumanInputRequest resolved_demoRequest))
     = [demoRequest (demoAgent ''t0'') ''t1''] \<and>
   app_agents (handleWebSocketMessage dashboard_one
       (AgentConnected ((demoAgent ''t0'')\<lparr>a_status := ''Busy''\<rparr>)))
     = [demoAgent ''t0'']"
  using C10_known_id_is_dropped [of "demoRequest (demoAgent ''t0'') ''t1''" dashboard_one
      resolved_demoRequest "demoAgent ''t0''" "(demoAgent ''t0'')\<lparr>a_status := ''Busy''\<rparr>"]
  by (simp add: dashboard_one_simps resolved_demoRequest_def demoRequest_def demoAgent_def)

subsection \<open>Discovery\<close>

lemma tryConnectToPort_simps:
  "sockets (tryConnectToPort d port) =
     sockets d @ [\<lparr>p_port = port, p_readyState = CONNECTING, p_promise = Unsettled\<rparr>]"
  "timers (tryConnectToPort d port) =
     timers d @ [\<lparr>t_delay = 1000, t_action = ConnectionTimeout (length (sockets d)), t_armed = True\<rparr>]"
  "app_ws (tryConnectToPort d port) = app_ws d"
  "reconnectInterval (tryConnectToPort d port) = reconnectInterval d"
  "connectionStatus (tryConnectToPort d port) = connectionStatus d"
  by (simp_all add: tryConnectToPort_def setTimeout_def Let_def)

text \<open>
  One scan, at the probe it is waiting for. When the probe fails, the probe is settled
  as rejected and the scan opens exactly one new socket, for the next port and with a
  timer of 1000 ms, or, after port 8199, shows \<^verbatim>\<open>Server Not Found\<close> and opens and
  arms nothing. When the probe opens, its socket is adopted, \<^verbatim>\<open>register-gui\<close> is sent
  on it and no further socket is created.
\<close>

lemma scan_one_port_at_a_time:
  assumes "k < length (sockets d)" and "p_promise (sockets d ! k) = Unsettled"
  shows "sockets (browser_step d (Errored k)) =
           (if p_port (sockets d ! k) + 1 < 8200
            then (sockets d)[k := (sockets d ! k)\<lparr>p_promise := Rejected\<rparr>] @
                 [\<lparr>p_port = p_port (sockets d ! k) + 1, p_readyState = CONNECTING,
                   p_promise = Unsettled\<rparr>]
            else (sockets d)[k := (sockets d ! k)\<lparr>p_promise := Rejected\<rparr>]) \<and>
         connectionStatus (browser_step d (Errored k)) =
           (if p_port (sockets d ! k) + 1 < 8200 then connectionStatus d
            else Some ''Server Not Found'') \<and>
         timers (browser_step d (Errored k)) =
           (if p_port (sockets d ! k) + 1 < 8200
            then timers d @ [\<lparr>t_delay = 1000, t_action = ConnectionTimeout (length (sockets d)),
                              t_armed = True\<rparr>]
            else timers d) \<and>
         length (sockets (browser_step d (Opened k))) = length (sockets d) \<and>
         app_ws (browser_step d (Opened k)) = Some k \<and>
         p_promise (sockets (browser_step d (Opened k)) ! k) = Fulfilled \<and>
         sent (browser_step d (Opened k)) = sent d @ [(k, ''register-gui'')]"
  using assms
  by (simp add: onerror_def reject_def scan_from_def set_promise_def tryConnectToPort_simps
      onopen_def resolve_def set_readyState_def clearTimeout_def Let_def split: option.splits)

text \<open>The same at the first probe of the first scan.\<close>

lemma scan_one_port_at_a_time_witness:
  "sockets (browser_step init (Errored 0)) =
     [\<lparr>p_port = 8080, p_readyState = CONNECTING, p_promise = Rejected\<rparr>,
      \<lparr>p_port = 8081, p_readyState = CONNECTING, p_promise = Unsettled\<rparr>] \<and>
   app_ws (browser_step init (Opened 0)) = Some 0"
  using scan_one_port_at_a_time [of 0 init]
  by (simp add: init_def connectToWebSocket_def scan_from_def tryConnectToPort_simps)

text \<open>
  C9 at a hub that does not listen: port 8080 refuses the connection, so the browser
  reports the error and then the close of that socket; the ports after it do not answer.
  After the error the scan probes port 8081. The \<^verbatim>\<open>onclose\<close> callback, installed on
  every probe, then arms a timer of 3000 ms for a new scan although no connection was
  ever established. The timers then fire in the order of their expiry: the two probe
  timers of 1000 ms armed first (the scan moves to port 8082; the socket of port 8081
  is closed by the timer, so its error and close follow), the probe timer of port 8082
  (the scan moves to port 8083), and then the timer of 3000 ms: the new scan probes
  port 8080 while the first scan is still waiting for port 8083.
\<close>

theorem C9_failed_probe_schedules_scan:
  "app_ws (foldl browser_step init [Errored 0, Closed 0]) = None \<and>
   connecting (foldl browser_step init [Errored 0, Closed 0]) = [8081] \<and>
   timers (foldl browser_step init [Errored 0, Closed 0]) ! 2 =
      \<lparr>t_delay = 3000, t_action = Reconnect, t_armed = True\<rparr> \<and>
   reconnectInterval (foldl browser_step init [Errored 0, Closed 0]) = Some 2 \<and>
   map t_delay (timers (foldl browser_step init [Errored 0, Closed 0])) = [1000, 1000, 3000] \<and>
   connecting (foldl browser_step init [Errored 0, Closed 0, Fired 0, Fired 1]) = [8082] \<and>
   map t_delay (timers (foldl browser_step init
       [Errored 0, Closed 0, Fired 0, Fired 1, Errored 1, Closed 1]))
     = [1000, 1000, 3000, 1000, 3000] \<and>
   connecting (foldl browser_step init
       [Errored 0, Closed 0, Fired 0, Fired 1, Errored 1, Closed 1, Fired 3, Errored 2, Closed 2])
     = [8083] \<and>
   app_ws (foldl browser_step init
       [Errored 0, Closed 0, Fired 0, Fired 1, Errored 1, Closed 1, Fired 3, Errored 2, Closed 2,
        Fired 2]) = None \<and>
   connecting (foldl browser_step init
       [Errored 0, Closed 0, Fired 0, Fired 1, Errored 1, Closed 1, Fired 3, Errored 2, Closed 2,
        Fired 2]) = [8083, 8080]"
  by (simp add: init_def connectToWebSocket_def scan_from_def tryConnectToPort_def
      setTimeout_def onerror_def reject_def set_promise_def onclose_def set_readyState_def
      clearTimeout_def connecting_def connection_timeout_def ws_close_def Let_def)

subsection \<open>The life of a request in the ledger\<close>

lemma step_answered:
  assumes "list_all (\<lambda>(k, r). answered_is_completed r) (humanRequests s)"
  shows "list_all (\<lambda>(k, r). answered_is_completed r) (humanRequests (fst (step s e)))"
proof (cases e)
  case (Message ws parsed uuid now)
  from on_message_requests [of s ws parsed uuid now] show ?thesis
    unfolding Message step.simps
  proof (elim disjE exE conjE)
    assume "humanRequests (fst (on_message s ws parsed uuid now)) = humanRequests s"
    with assms show "list_all (\<lambda>(k, r). answered_is_completed r)
        (humanRequests (fst (on_message s ws parsed uuid now)))" by simp
  next
    fix r
    assume "humanRequests (fst (on_message s ws parsed uuid now)) =
              AList.update uuid r (humanRequests s)"
      and "r_status r = Pending" and "r_response r = None"
    with assms show "list_all (\<lambda>(k, r). answered_is_completed r)
        (humanRequests (fst (on_message s ws parsed uuid now)))"
      by (simp add: list_all_update answered_is_completed_def)
  next
    fix k r0 m
    assume "humanRequests (fst (on_message s ws parsed uuid now)) =
        AList.update k (r0\<lparr>r_status := Completed, r_response := m_response m\<rparr>) (humanRequests s)"
    with assms show "list_all (\<lambda>(k, r). answered_is_completed r)
        (humanRequests (fst (on_message s ws parsed uuid now)))"
      by (simp add: list_all_update answered_is_completed_def)
  qed
next
  case (Closing ws)
  then show ?thesis using assms by simp
next
  case (Close ws)
  then show ?thesis using assms by (simp add: on_close_requests)
next
  case (Timer now)
  show ?thesis
  proof (cases "pending s")
    case CreateDemoAgent
    with Timer assms show ?thesis by (simp add: on_timer_def)
  next
    case (CreateDemoRequest agent)
    with Timer assms show ?thesis
      by (simp add: on_timer_def Let_def list_all_update answered_is_completed_def demoRequest_def)
  next
    case NoTimer
    with Timer assms show ?thesis by (simp add: on_timer_def)
  qed
qed

lemma run_answered:
  "list_all (\<lambda>(k, r). answered_is_completed r) (humanRequests s) \<Longrightarrow>
   list_all (\<lambda>(k, r). answered_is_completed r) (humanRequests (fst (run s es)))"
proof (induction es arbitrary: s)
  case Nil
  then show ?case by simp
next
  case (Cons e es)
  from Cons.IH [OF step_answered [OF Cons.prems]] show ?case
    by (simp only: run_Cons_fst)
qed

lemma step_settled:
  assumes "list_all (\<lambda>(k, r). settled r) (humanRequests s)" and "carries_response e"
  shows "list_all (\<lambda>(k, r). settled r) (humanRequests (fst (step s e)))"
proof (cases e)
  case (Message ws parsed uuid now)
  from on_message_requests [of s ws parsed uuid now] show ?thesis
    unfolding Message step.simps
  proof (elim disjE exE conjE)
    assume "humanRequests (fst (on_message s ws parsed uuid now)) = humanRequests s"
    with assms show "list_all (\<lambda>(k, r). settled r)
        (humanRequests (fst (on_message s ws parsed uuid now)))" by simp
  next
    fix r
    assume "humanRequests (fst (on_message s ws parsed uuid now)) =
              AList.update uuid r (humanRequests s)"
      and "r_status r = Pending" and "r_response r = None"
    with assms show "list_all (\<lambda>(k, r). settled r)
        (humanRequests (fst (on_message s ws parsed uuid now)))"
      by (simp add: list_all_update settled_def)
  next
    fix k r0 m
    assume p: "parsed = Some m" and t: "m_type m = Some ''human-input-response''"
      and u: "humanRequests (fst (on_message s ws parsed uuid now)) =
        AList.update k (r0\<lparr>r_status := Completed, r_response := m_response m\<rparr>) (humanRequests s)"
    from assms(2) p t have "m_response m \<noteq> None"
      unfolding Message by simp
    with assms(1) u show "list_all (\<lambda>(k, r). settled r)
        (humanRequests (fst (on_message s ws parsed uuid now)))"
      by (simp add: list_all_update settled_def)
  qed
next
  case (Closing ws)
  then show ?thesis using assms by simp
next
  case (Close ws)
  then show ?thesis using assms by (simp add: on_close_requests)
next
  case (Timer now)
  show ?thesis
  proof (cases "pending s")
    case CreateDemoAgent
    with Timer assms show ?thesis by (simp add: on_timer_def)
  next
    case (CreateDemoRequest agent)
    with Timer assms show ?thesis
      by (simp add: on_timer_def Let_def list_all_update settled_def demoRequest_def)
  next
    case NoTimer
    with Timer assms show ?thesis by (simp add: on_timer_def)
  qed
qed

lemma run_settled:
  "list_all (\<lambda>(k, r). settled r) (humanRequests s) \<Longrightarrow> list_all carries_response es \<Longrightarrow>
   list_all (\<lambda>(k, r). settled r) (humanRequests (fst (run s es)))"
proof (induction es arbitrary: s)
  case Nil
  then show ?case by simp
next
  case (Cons e es)
  from Cons.prems(2) have c: "carries_response e" and cs: "list_all carries_response es"
    by simp_all
  from Cons.IH [OF step_settled [OF Cons.prems(1) c] cs] show ?case
    by (simp only: run_Cons_fst)
qed

lemma step_demo_unused:
  assumes "demo_unused s" and "admissible s e"
  shows "demo_unused (fst (step s e))"
proof (cases e)
  case (Message ws parsed uuid now)
  with assms(2) have u: "uuid \<noteq> ''demo-request-001''" by (simp add: fresh_def)
  from on_message_request_keys [of s ws parsed uuid now] assms(1) u show ?thesis
    unfolding Message step.simps demo_unused_def on_message_pending
    by auto
next
  case (Closing ws)
  then show ?thesis using assms by (simp add: demo_unused_def)
next
  case (Close ws)
  then show ?thesis using assms
    by (simp add: demo_unused_def on_close_requests on_close_pending)
next
  case (Timer now)
  then show ?thesis using assms
    by (auto simp: demo_unused_def on_timer_def Let_def split: pending.splits)
qed

lemma run_demo_unused:
  "demo_unused s \<Longrightarrow> admissible_run s es \<Longrightarrow> demo_unused (fst (run s es))"
proof (induction es arbitrary: s)
  case Nil
  then show ?case by simp
next
  case (Cons e es)
  then show ?case
    by (simp only: run_Cons_fst admissible_run.simps step_demo_unused)
qed

lemma step_completed:
  assumes "demo_unused s" and "admissible s e"
    and "map_of (humanRequests s) k = Some r" and "r_status r = Completed"
  shows "\<exists>r'. map_of (humanRequests (fst (step s e))) k = Some r' \<and> r_status r' = Completed"
proof (cases e)
  case (Message ws parsed uuid now)
  from assms(3) have "k \<in> fst ` set (humanRequests s)" by (rule map_of_key)
  with assms(2) Message have "uuid \<noteq> k" by (auto simp: fresh_def)
  with on_message_requests [of s ws parsed uuid now] assms(3,4) show ?thesis
    unfolding Message step.simps
    by (auto simp: AList.update_conv')
next
  case (Closing ws)
  then show ?thesis using assms by simp
next
  case (Close ws)
  then show ?thesis using assms by (simp add: on_close_requests)
next
  case (Timer now)
  from assms(3) have k: "k \<in> fst ` set (humanRequests s)" by (rule map_of_key)
  show ?thesis
  proof (cases "pending s")
    case CreateDemoAgent
    with Timer assms(3,4) show ?thesis by (simp add: on_timer_def)
  next
    case (CreateDemoRequest agent)
    with assms(1) have "''demo-request-001'' \<notin> fst ` set (humanRequests s)"
      by (simp add: demo_unused_def)
    with k have "k \<noteq> ''demo-request-001''" by metis
    with Timer CreateDemoRequest assms(3,4) show ?thesis
      by (simp add: on_timer_def Let_def AList.update_conv')
  next
    case NoTimer
    with Timer assms(3,4) show ?thesis by (simp add: on_timer_def)
  qed
qed

lemma run_completed:
  "demo_unused s \<Longrightarrow> admissible_run s es \<Longrightarrow>
   map_of (humanRequests s) k = Some r \<Longrightarrow> r_status r = Completed \<Longrightarrow>
   \<exists>r'. map_of (humanRequests (fst (run s es))) k = Some r' \<and> r_status r' = Completed"
proof (induction es arbitrary: s r)
  case Nil
  then show ?case by simp
next
  case (Cons e es)
  from Cons.prems have a: "admissible s e" and b: "admissible_run (fst (step s e)) es"
    by simp_all
  from step_completed [OF Cons.prems(1) a Cons.prems(3,4)]
  obtain r1 where r1: "map_of (humanRequests (fst (step s e))) k = Some r1"
      "r_status r1 = Completed" by blast
  from Cons.IH [OF step_demo_unused [OF Cons.prems(1) a] b r1]
  show ?case by (simp only: run_Cons_fst)
qed
lemma resolved_without_response_state:
  "admissible_run start (two_observers @ [Message 1 (Some resolve_R1_without_response) ''u4'' ''t4''])"
  "humanRequests (fst (run start
       (two_observers @ [Message 1 (Some resolve_R1_without_response) ''u4'' ''t4''])))
     = [(''R1'', R1\<lparr>r_status := Completed\<rparr>)]"
  by (simp_all add: run_fst_append admissible_run_append two_observers_run fresh_def)
    (simp_all add: two_observers_def start_def new_ws_def
      fresh_def on_message_def handleMessage_def envelope_of_def registerGUI_def registerAgent_def
      handleHumanInputRequest_def handleHumanInputResponse_def no_data_def approval_data_def
      or_default_def map_get_def Let_def broadcastToGUIs_def sendToClient_def set_add_def
      resolve_R1_without_response_def R1_def stringify_throws_def)

text \<open>
  C4 as stated, at the scenario: a dashboard resolves R1 with an envelope that has no
  \<^verbatim>\<open>response\<close> field. The hub assigns \<^verbatim>\<open>request.response = undefined\<close>: R1 is Completed
  and has no response.
\<close>

theorem C4_completed_without_response:
  "admissible_run start
     (two_observers @ [Message 1 (Some resolve_R1_without_response) ''u4'' ''t4'']) \<and>
   map_of (humanRequests (fst (run start
       (two_observers @ [Message 1 (Some resolve_R1_without_response) ''u4'' ''t4''])))) ''R1''
     = Some (R1\<lparr>r_status := Completed\<rparr>) \<and>
   r_status (R1\<lparr>r_status := Completed\<rparr>) = Completed \<and>
   r_response (R1\<lparr>r_status := Completed\<rparr>) = None \<and>
   \<not> settled (R1\<lparr>r_status := Completed\<rparr>)"
  using resolved_without_response_state by (simp add: settled_def R1_def)

text \<open>
  C4, amended: along every run of the hub from its start in which each \<^verbatim>\<open>uuidv4()\<close>
  token is fresh and no socket receives anything after its \<^verbatim>\<open>'close'\<close> event, every
  request of the ledger that has a response is Completed; when every
  \<^verbatim>\<open>human-input-response\<close> envelope of the run carries a \<^verbatim>\<open>response\<close> field, a request
  has a response exactly when it is Completed; and a request that is Completed in some
  state is in the ledger and Completed in every later state.
\<close>

theorem C4_response_and_status:
  assumes "admissible_run start (es @ fs)"
  shows "(\<forall>(k, r) \<in> set (humanRequests (fst (run start es))).
            r_response r \<noteq> None \<longrightarrow> r_status r = Completed) \<and>
         (list_all carries_response es \<longrightarrow>
            (\<forall>(k, r) \<in> set (humanRequests (fst (run start es))).
               (r_response r \<noteq> None) = (r_status r = Completed))) \<and>
         (\<forall>k r. map_of (humanRequests (fst (run start es))) k = Some r \<and> r_status r = Completed \<longrightarrow>
            (\<exists>r'. map_of (humanRequests (fst (run start (es @ fs)))) k = Some r' \<and>
                  r_status r' = Completed))"
proof -
  from assms have es: "admissible_run start es"
    and fs: "admissible_run (fst (run start es)) fs"
    by (simp_all add: admissible_run_append)
  have "list_all (\<lambda>(k, r). answered_is_completed r) (humanRequests (fst (run start es)))"
    by (rule run_answered) (simp add: start_def)
  then have one: "\<forall>(k, r) \<in> set (humanRequests (fst (run start es))).
            r_response r \<noteq> None \<longrightarrow> r_status r = Completed"
    by (auto simp: list_all_iff answered_is_completed_def)
  have two: "\<forall>(k, r) \<in> set (humanRequests (fst (run start es))).
               (r_response r \<noteq> None) = (r_status r = Completed)"
    if c: "list_all carries_response es"
  proof -
    have "list_all (\<lambda>(k, r). settled r) (humanRequests (fst (run start es)))"
      by (rule run_settled [OF _ c]) (simp add: start_def)
    then show ?thesis
      by (auto simp: list_all_iff settled_def)
  qed
  have "demo_unused start" by (simp add: demo_unused_def start_def)
  then have d: "demo_unused (fst (run start es))" using es by (rule run_demo_unused)
  have three: "\<exists>r'. map_of (humanRequests (fst (run start (es @ fs)))) k = Some r' \<and>
                  r_status r' = Completed"
    if "map_of (humanRequests (fst (run start es))) k = Some r" "r_status r = Completed" for k r
    using run_completed [OF d fs that] by (simp add: run_fst_append)
  from one two three show ?thesis by blast
qed

lemma resolved_run_state:
  "admissible_run start (resolved_run @ later_events)"
  "list_all carries_response resolved_run"
  "humanRequests (fst (run start resolved_run))
     = [(''R1'', R1\<lparr>r_status := Completed, r_response := Some ''Yes''\<rparr>)]"
  by (simp_all add: resolved_run_def later_events_def two_observers_def start_def new_ws_def
      fresh_def on_message_def on_timer_def on_close_def handleDisconnection_def
      handleMessage_def envelope_of_def registerGUI_def registerAgent_def
      handleHumanInputRequest_def handleHumanInputResponse_def no_data_def approval_data_def
      or_default_def map_get_def Let_def broadcastToGUIs_def sendToClient_def set_add_def
      resolve_R1_def R1_def demoAgent_def stringify_throws_def)

text \<open>
  C4, amended, at the scenario: R1 is Completed with its response after the resolution
  and is still Completed after a second resolution, the close of the agent's socket and
  the demo timers.
\<close>

theorem C4_response_and_status_witness:
  "admissible_run start (resolved_run @ later_events) \<and>
   list_all carries_response resolved_run \<and>
   map_of (humanRequests (fst (run start resolved_run))) ''R1''
     = Some (R1\<lparr>r_status := Completed, r_response := Some ''Yes''\<rparr>) \<and>
   (\<exists>r'. map_of (humanRequests (fst (run start (resolved_run @ later_events)))) ''R1'' = Some r' \<and>
         r_status r' = Completed)"
proof -
  have m: "map_of (humanRequests (fst (run start resolved_run))) ''R1''
     = Some (R1\<lparr>r_status := Completed, r_response := Some ''Yes''\<rparr>)"
    by (simp add: resolved_run_state(3))
  note c = C4_response_and_status [OF resolved_run_state(1)]
  note c3 = c [THEN conjunct2, THEN conjunct2]
  from c3 [rule_format, of "''R1''" "R1\<lparr>r_status := Completed, r_response := Some ''Yes''\<rparr>"] m
  have "\<exists>r'. map_of (humanRequests (fst (run start (resolved_run @ later_events)))) ''R1'' = Some r' \<and>
         r_status r' = Completed" by simp
  with resolved_run_state(1,2) m show ?thesis by (intro conjI)
qed

subsection \<open>Agent records and their sockets\<close>

lemma matched_is_agent: "matched ident live is_agent A \<Longrightarrow> (ident c \<noteq> None) = is_agent c"
  unfolding matched_def by (elim conjE) (erule spec)

lemma matched_key:
  "matched ident live is_agent A \<Longrightarrow> ident c = Some a \<Longrightarrow> live c \<Longrightarrow>
   a \<in> A \<and> a \<noteq> ''demo-agent-001'' \<and> a \<noteq> []"
  unfolding matched_def by (elim conjE) (drule spec [of _ c], drule spec [of _ a], simp)

lemma matched_unique:
  "matched ident live is_agent A \<Longrightarrow> ident c = Some a \<Longrightarrow> ident c' = Some a \<Longrightarrow>
   live c \<Longrightarrow> live c' \<Longrightarrow> c = c'"
  unfolding matched_def
  by (elim conjE) (drule spec [of "\<lambda>c. \<forall>c' a. _ c c' a" c], drule spec [of _ c'], drule spec [of _ a], simp)

lemma matched_conn:
  "matched ident live is_agent A \<Longrightarrow> a \<in> A \<Longrightarrow> a \<noteq> ''demo-agent-001'' \<Longrightarrow>
   \<exists>c. ident c = Some a \<and> live c"
  unfolding matched_def by (elim conjE) (drule bspec [of _ _ a], simp_all)

lemma matchedI:
  assumes "\<And>c. (ident c \<noteq> None) = is_agent c"
    and "\<And>c a. ident c = Some a \<Longrightarrow> live c \<Longrightarrow> a \<in> A \<and> a \<noteq> ''demo-agent-001'' \<and> a \<noteq> []"
    and "\<And>c c' a. ident c = Some a \<Longrightarrow> ident c' = Some a \<Longrightarrow> live c \<Longrightarrow> live c' \<Longrightarrow> c = c'"
    and "\<And>a. a \<in> A \<Longrightarrow> a \<noteq> ''demo-agent-001'' \<Longrightarrow> \<exists>c. ident c = Some a \<and> live c"
  shows "matched ident live is_agent A"
  unfolding matched_def
proof (intro conjI)
  show "\<forall>c. (ident c \<noteq> None) = is_agent c" using assms(1) by blast
  show "\<forall>c a. ident c = Some a \<longrightarrow> live c \<longrightarrow> a \<in> A \<and> a \<noteq> ''demo-agent-001'' \<and> a \<noteq> []"
    using assms(2) by blast
  show "\<forall>c c' a. ident c = Some a \<longrightarrow> ident c' = Some a \<longrightarrow> live c \<longrightarrow> live c' \<longrightarrow> c = c'"
    using assms(3) by blast
  show "\<forall>a\<in>A. a \<noteq> ''demo-agent-001'' \<longrightarrow> (\<exists>c. ident c = Some a \<and> live c)"
    using assms(4) by blast
qed

lemma matched_register:
  assumes m: "matched ident live is_agent A" and n: "\<not> is_agent ws" and l: "live ws"
    and u: "u \<notin> A" "u \<noteq> ''demo-agent-001''" "u \<noteq> []"
  shows "matched (ident(ws := Some u)) live (is_agent(ws := True)) (insert u A)"
proof (rule matchedI)
  from matched_is_agent [OF m, of ws] n have none: "ident ws = None" by simp
  have old: "\<not> live c" if "ident c = Some u" for c
    using matched_key [OF m that] u(1) by auto
  show "((ident(ws := Some u)) c \<noteq> None) = (is_agent(ws := True)) c" for c
    using matched_is_agent [OF m, of c] by simp
  show "a \<in> insert u A \<and> a \<noteq> ''demo-agent-001'' \<and> a \<noteq> []"
    if "(ident(ws := Some u)) c = Some a" "live c" for c a
  proof (cases "c = ws")
    case True
    with that u show ?thesis by simp
  next
    case False
    with that have "ident c = Some a" by simp
    from matched_key [OF m this that(2)] show ?thesis by simp
  qed
  show "c = c'"
    if a: "(ident(ws := Some u)) c = Some a" "(ident(ws := Some u)) c' = Some a" "live c" "live c'"
    for c c' a
  proof (cases "c = ws")
    case True
    with a(1) have au: "a = u" by simp
    show ?thesis
    proof (cases "c' = ws")
      case True
      with \<open>c = ws\<close> show ?thesis by simp
    next
      case False
      with a(2) au have "ident c' = Some u" by simp
      from old [OF this] a(4) show ?thesis by simp
    qed
  next
    case False
    with a(1) have c: "ident c = Some a" by simp
    show ?thesis
    proof (cases "c' = ws")
      case True
      with a(2) have "a = u" by simp
      with c have "ident c = Some u" by simp
      from old [OF this] a(3) show ?thesis by simp
    next
      case c': False
      with a(2) have "ident c' = Some a" by simp
      from matched_unique [OF m c this a(3,4)] show ?thesis .
    qed
  qed
  show "\<exists>c. (ident(ws := Some u)) c = Some a \<and> live c"
    if a: "a \<in> insert u A" "a \<noteq> ''demo-agent-001''" for a
  proof (cases "a = u")
    case True
    with l show ?thesis by (intro exI [of _ ws]) simp
  next
    case False
    with a have "a \<in> A" by simp
    from matched_conn [OF m this a(2)] obtain c where c: "ident c = Some a" "live c" by blast
    with none have "c \<noteq> ws" by auto
    with c show ?thesis by (intro exI [of _ c]) simp
  qed
qed

lemma matched_close:
  assumes m: "matched ident live is_agent A"
  shows "matched ident (live(ws := False)) is_agent
           (case ident ws of None \<Rightarrow> A | Some k \<Rightarrow> if live ws then A - {k} else A)"
proof (rule matchedI)
  let ?A = "case ident ws of None \<Rightarrow> A | Some k \<Rightarrow> if live ws then A - {k} else A"
  have sub: "a \<in> A" if "a \<in> ?A" for a
    using that by (cases "ident ws") (simp_all split: if_splits)
  show "(ident c \<noteq> None) = is_agent c" for c by (rule matched_is_agent [OF m])
  show "a \<in> ?A \<and> a \<noteq> ''demo-agent-001'' \<and> a \<noteq> []"
    if a: "ident c = Some a" "(live(ws := False)) c" for c a
  proof -
    from a(2) have c: "c \<noteq> ws" "live c" by (simp_all split: if_splits)
    from matched_key [OF m a(1) c(2)]
    have b: "a \<in> A" "a \<noteq> ''demo-agent-001''" "a \<noteq> []" by simp_all
    have "a \<in> ?A"
    proof (cases "ident ws")
      case None
      with b show ?thesis by simp
    next
      case (Some k)
      show ?thesis
      proof (cases "live ws")
        case True
        have "a \<noteq> k"
        proof
          assume "a = k"
          with Some have "ident ws = Some a" by simp
          from matched_unique [OF m a(1) this c(2) True] c(1) show False by simp
        qed
        with b Some True show ?thesis by simp
      next
        case False
        with b Some show ?thesis by simp
      qed
    qed
    with b show ?thesis by simp
  qed
  show "c = c'"
    if a: "ident c = Some a" "ident c' = Some a" "(live(ws := False)) c" "(live(ws := False)) c'"
    for c c' a
  proof -
    from a(3,4) have "live c" "live c'" by (simp_all split: if_splits)
    from matched_unique [OF m a(1,2) this] show ?thesis .
  qed
  show "\<exists>c. ident c = Some a \<and> (live(ws := False)) c"
    if a: "a \<in> ?A" "a \<noteq> ''demo-agent-001''" for a
  proof -
    from matched_conn [OF m sub [OF a(1)] a(2)]
    obtain c where c: "ident c = Some a" "live c" by blast
    have "c \<noteq> ws"
    proof
      assume "c = ws"
      with c a(1) show False by simp
    qed
    with c show ?thesis by (intro exI [of _ c]) simp
  qed
qed

lemma matched_demo:
  assumes m: "matched ident live is_agent A"
  shows "matched ident live is_agent (insert ''demo-agent-001'' A)"
proof (rule matchedI)
  show "(ident c \<noteq> None) = is_agent c" for c by (rule matched_is_agent [OF m])
  show "a \<in> insert ''demo-agent-001'' A \<and> a \<noteq> ''demo-agent-001'' \<and> a \<noteq> []"
    if "ident c = Some a" "live c" for c a
    using matched_key [OF m that] by simp
  show "c = c'" if "ident c = Some a" "ident c' = Some a" "live c" "live c'" for c c' a
    using matched_unique [OF m that] .
  show "\<exists>c. ident c = Some a \<and> live c"
    if "a \<in> insert ''demo-agent-001'' A" "a \<noteq> ''demo-agent-001''" for a
    using matched_conn [OF m, of a] that by simp
qed

lemma message_agents_match:
  assumes m: "agents_match s" and a: "admissible s (Message ws parsed uuid now)"
    and r: "registers_once s (Message ws parsed uuid now)"
  shows "agents_match (fst (on_message s ws parsed uuid now))"
proof (cases parsed)
  case None
  with m show ?thesis by (simp add: on_message_def)
next
  case (Some msg)
  from a have live: "readyState (conns s ws) \<noteq> CLOSED" and f: "fresh s uuid" by simp_all
  consider (gui) "m_type msg = Some ''register-gui''"
    | (agent) "m_type msg = Some ''register-agent''"
    | (request) "m_type msg = Some ''human-input-request''"
    | (response) "m_type msg = Some ''human-input-response''"
    | (update) "m_type msg = Some ''agent-update''"
    | (other) "m_type msg \<noteq> Some ''register-gui''" "m_type msg \<noteq> Some ''register-agent''"
        "m_type msg \<noteq> Some ''human-input-request''" "m_type msg \<noteq> Some ''human-input-response''"
        "m_type msg \<noteq> Some ''agent-update''"
    by blast
  then show ?thesis
  proof cases
    case gui
    with r Some have n: "clientType (conns s ws) = None" by (simp add: is_registration_def)
    with m gui Some show ?thesis
      by (simp add: on_message_def handleMessage_def registerGUI_def Let_def agents_match_def
          fun_upd_comp comp_upd_same)
  next
    case agent
    with r Some have n: "clientType (conns s ws) = None" by (simp add: is_registration_def)
    show ?thesis
    proof (cases "m_data msg")
      case None
      with m agent Some show ?thesis
        by (simp add: on_message_def handleMessage_def registerAgent_def)
    next
      case d: (Some d)
      from f have u: "uuid \<notin> fst ` set (agents s)" "uuid \<noteq> ''demo-agent-001''" "uuid \<noteq> []"
        by (simp_all add: fresh_def)
      from m have "matched (agentId \<circ> conns s) ((\<lambda>w. readyState w \<noteq> CLOSED) \<circ> conns s)
         ((\<lambda>w. clientType w = Some AgentClient) \<circ> conns s) (fst ` set (agents s))"
        by (simp add: agents_match_def)
      from matched_register [OF this _ _ u, of ws] n live
      have "matched ((agentId \<circ> conns s)(ws := Some uuid)) ((\<lambda>w. readyState w \<noteq> CLOSED) \<circ> conns s)
         (((\<lambda>w. clientType w = Some AgentClient) \<circ> conns s)(ws := True))
         (insert uuid (fst ` set (agents s)))" by simp
      with agent Some d show ?thesis
        by (simp add: on_message_def handleMessage_def registerAgent_def Let_def agents_match_def
            fun_upd_comp comp_upd_same AList.dom_update)
    qed
  next
    case request
    with m Some show ?thesis
      by (cases "m_data msg")
        (simp_all add: on_message_def handleMessage_def handleHumanInputRequest_def Let_def
          agents_match_def)
  next
    case response
    with m Some show ?thesis
      by (simp add: on_message_def handleMessage_def handleHumanInputResponse_def Let_def
          agents_match_def split: option.splits)
  next
    case update
    with m Some show ?thesis
      by (simp add: on_message_def handleMessage_def handleAgentUpdate_def Let_def
          agents_match_def keys_update_known split: option.splits)
  next
    case other
    with m Some show ?thesis by (simp add: on_message_def handleMessage_def)
  qed
qed

lemma close_agents_match:
  assumes m: "agents_match s" and a: "admissible s (Close ws)"
  shows "agents_match (fst (on_close s ws))"
proof -
  from a have live: "readyState (conns s ws) \<noteq> CLOSED" by simp
  let ?ident = "agentId \<circ> conns s" and ?live = "(\<lambda>w. readyState w \<noteq> CLOSED) \<circ> conns s"
  let ?is_agent = "(\<lambda>w. clientType w = Some AgentClient) \<circ> conns s"
  from m have mm: "matched ?ident ?live ?is_agent (fst ` set (agents s))"
    by (simp add: agents_match_def)
  from matched_close [OF mm, of ws] live
  have c: "matched ?ident (?live(ws := False)) ?is_agent
      (case agentId (conns s ws) of None \<Rightarrow> fst ` set (agents s)
       | Some k \<Rightarrow> fst ` set (agents s) - {k})"
    by (simp cong: option.case_cong)
  from matched_is_agent [OF mm, of ws]
  have ia: "(agentId (conns s ws) \<noteq> None) = (clientType (conns s ws) = Some AgentClient)" by simp
  show ?thesis
  proof (cases "agentId (conns s ws)")
    case None
    with ia have "clientType (conns s ws) \<noteq> Some AgentClient" by simp
    with c None show ?thesis
      by (simp add: on_close_def handleDisconnection_def agents_match_def fun_upd_comp
          comp_upd_same)
  next
    case (Some k)
    with ia have ct: "clientType (conns s ws) = Some AgentClient" by simp
    from matched_key [OF mm, of ws k] Some live
    have k: "k \<in> fst ` set (agents s)" "k \<noteq> []" by simp_all
    then obtain ag where ag: "map_of (agents s) k = Some ag"
      by (metis map_of_eq_None_iff not_Some_eq)
    from c Some ct k ag show ?thesis
      by (simp add: on_close_def handleDisconnection_def agents_match_def fun_upd_comp
          comp_upd_same Let_def keys_delete)
  qed
qed

lemma step_agents_match:
  assumes "agents_match s" and "admissible s e" and "registers_once s e"
  shows "agents_match (fst (step s e))"
proof (cases e)
  case (Message ws parsed uuid now)
  with assms show ?thesis by (simp add: message_agents_match)
next
  case (Closing ws)
  with assms show ?thesis
    by (simp add: agents_match_def fun_upd_comp comp_upd_same)
next
  case (Close ws)
  with assms show ?thesis by (simp add: close_agents_match)
next
  case (Timer now)
  show ?thesis
  proof (cases "pending s")
    case CreateDemoAgent
    from assms(1) have "matched (agentId \<circ> conns s) ((\<lambda>w. readyState w \<noteq> CLOSED) \<circ> conns s)
       ((\<lambda>w. clientType w = Some AgentClient) \<circ> conns s) (fst ` set (agents s))"
      by (simp add: agents_match_def)
    from matched_demo [OF this] Timer CreateDemoAgent show ?thesis
      by (simp add: on_timer_def agents_match_def AList.dom_update)
  next
    case (CreateDemoRequest agent)
    with Timer assms(1) show ?thesis by (simp add: on_timer_def Let_def agents_match_def)
  next
    case NoTimer
    with Timer assms(1) show ?thesis by (simp add: on_timer_def)
  qed
qed

lemma run_agents_match:
  "agents_match s \<Longrightarrow> admissible_run s es \<Longrightarrow> registers_once_run s es \<Longrightarrow>
   agents_match (fst (run s es))"
proof (induction es arbitrary: s)
  case Nil
  then show ?case by simp
next
  case (Cons e es)
  from Cons.prems have "agents_match (fst (step s e))"
    by (simp add: step_agents_match)
  from Cons.IH [OF this] Cons.prems show ?case
    by (simp only: run_Cons_fst admissible_run.simps registers_once_run.simps)
qed

lemma start_agents_match: "agents_match start"
  unfolding agents_match_def
  by (rule matchedI) (simp_all add: start_def new_ws_def)

lemma close_agent_socket:
  assumes ct: "clientType (conns s ws) = Some AgentClient" and id: "agentId (conns s ws) = Some k"
    and k: "k \<noteq> []" and ag: "map_of (agents s) k = Some ag"
  shows "agents (fst (on_close s ws)) = AList.delete k (agents s) \<and>
         snd (on_close s ws) = map (\<lambda>gui. (gui, AgentDisconnected k))
           (filter (\<lambda>gui. gui \<noteq> ws \<and> readyState (conns s gui) = OPEN) (guiClients s))"
proof -
  have "filter (\<lambda>gui. readyState (if gui = ws then (conns s ws)\<lparr>readyState := CLOSED\<rparr> else conns s gui) = OPEN) xs
      = filter (\<lambda>gui. gui \<noteq> ws \<and> readyState (conns s gui) = OPEN) xs" for xs
    by (rule filter_cong) auto
  with assms show ?thesis
    by (simp add: on_close_def handleDisconnection_def Let_def broadcastToGUIs_fst
        broadcast_without_socket)
qed

text \<open>
  C6, as stated, fails. When the first timer of \<^verbatim>\<open>createDemoData\<close> has fired the hub
  holds the Agent record \<^verbatim>\<open>demo-agent-001\<close>, and every socket is as the
  \<^verbatim>\<open>'connection'\<close> callback receives it, without \<^verbatim>\<open>agentId\<close>: the record belongs to
  no connection.
\<close>

theorem C6_demo_agent_has_no_connection:
  "agents (fst (run start [Timer ''t0''])) = [(''demo-agent-001'', demoAgent ''t0'')] \<and>
   conns (fst (run start [Timer ''t0''])) = (\<lambda>ws. new_ws) \<and>
   agentId new_ws = None \<and> clientType new_ws = None"
  by (simp add: start_def on_timer_def new_ws_def)

text \<open>
  A socket that registers as an agent a second time leaves its first record behind:
  after its close the record \<^verbatim>\<open>A1\<close> is still there. The amended claim is therefore
  about runs in which no socket registers twice.
\<close>

lemma second_registration_leaves_orphan:
  "admissible_run start twice_registered \<and>
   map fst (agents (fst (run start twice_registered))) = [''A1''] \<and>
   readyState (conns (fst (run start twice_registered)) 1) = CLOSED \<and>
   agentId (conns (fst (run start twice_registered)) 1) = Some ''A2''"
  by (simp add: twice_registered_def start_def new_ws_def fresh_def on_message_def
      handleMessage_def envelope_of_def registerAgent_def no_data_def or_default_def Let_def
      broadcastToGUIs_def on_close_def handleDisconnection_def)

text \<open>
  C6, amended: along every run of the hub from its start in which each token is fresh, no
  socket receives anything after its \<^verbatim>\<open>'close'\<close> event and no socket sends a second
  registration message, every Agent record other than the demo agent is the
  \<^verbatim>\<open>agentId\<close> of exactly one socket whose \<^verbatim>\<open>'close'\<close> event is still to come; and when
  a socket whose \<^verbatim>\<open>clientType\<close> is \<^verbatim>\<open>agent\<close> closes, the record under its id is
  deleted and \<^verbatim>\<open>agent-disconnected\<close> with that id is sent to every dashboard whose
  socket is open.
\<close>

theorem C6_agents_and_connections:
  assumes "admissible_run start es" and "registers_once_run start es"
  shows "let s = fst (run start es) in
     (\<forall>a \<in> fst ` set (agents s). a \<noteq> ''demo-agent-001'' \<longrightarrow>
        (\<exists>!ws. agentId (conns s ws) = Some a \<and> readyState (conns s ws) \<noteq> CLOSED)) \<and>
     (\<forall>ws. clientType (conns s ws) = Some AgentClient \<and> readyState (conns s ws) \<noteq> CLOSED \<longrightarrow>
        (\<exists>k. agentId (conns s ws) = Some k \<and> k \<in> fst ` set (agents s) \<and>
             agents (fst (on_close s ws)) = AList.delete k (agents s) \<and>
             k \<notin> fst ` set (agents (fst (on_close s ws))) \<and>
             snd (on_close s ws) = map (\<lambda>gui. (gui, AgentDisconnected k))
               (filter (\<lambda>gui. gui \<noteq> ws \<and> readyState (conns s gui) = OPEN) (guiClients s))))"
proof -
  define s where "s = fst (run start es)"
  have "agents_match s" unfolding s_def
    using start_agents_match assms by (rule run_agents_match)
  then have mm: "matched (agentId \<circ> conns s) ((\<lambda>w. readyState w \<noteq> CLOSED) \<circ> conns s)
       ((\<lambda>w. clientType w = Some AgentClient) \<circ> conns s) (fst ` set (agents s))"
    by (simp add: agents_match_def)
  have one: "\<exists>!ws. agentId (conns s ws) = Some a \<and> readyState (conns s ws) \<noteq> CLOSED"
    if a: "a \<in> fst ` set (agents s)" "a \<noteq> ''demo-agent-001''" for a
  proof -
    from matched_conn [OF mm a] obtain c
      where c: "agentId (conns s c) = Some a" "readyState (conns s c) \<noteq> CLOSED" by auto
    show ?thesis
    proof (rule ex1I [of _ c])
      from c show "agentId (conns s c) = Some a \<and> readyState (conns s c) \<noteq> CLOSED" by simp
    next
      fix ws assume "agentId (conns s ws) = Some a \<and> readyState (conns s ws) \<noteq> CLOSED"
      with matched_unique [OF mm, of ws a c] c show "ws = c" by simp
    qed
  qed
  have two: "\<exists>k. agentId (conns s ws) = Some k \<and> k \<in> fst ` set (agents s) \<and>
             agents (fst (on_close s ws)) = AList.delete k (agents s) \<and>
             k \<notin> fst ` set (agents (fst (on_close s ws))) \<and>
             snd (on_close s ws) = map (\<lambda>gui. (gui, AgentDisconnected k))
               (filter (\<lambda>gui. gui \<noteq> ws \<and> readyState (conns s gui) = OPEN) (guiClients s))"
    if w: "clientType (conns s ws) = Some AgentClient" "readyState (conns s ws) \<noteq> CLOSED" for ws
  proof -
    from matched_is_agent [OF mm, of ws] w(1) obtain k where k: "agentId (conns s ws) = Some k"
      by auto
    from matched_key [OF mm, of ws k] k w(2)
    have kk: "k \<in> fst ` set (agents s)" "k \<noteq> []" by simp_all
    then obtain ag where ag: "map_of (agents s) k = Some ag"
      by (metis map_of_eq_None_iff not_Some_eq)
    from close_agent_socket [OF w(1) k kk(2) ag] k kk(1) show ?thesis
      by (simp add: keys_delete)
  qed
  from one two show ?thesis unfolding s_def [symmetric] Let_def by blast
qed

lemma agent_run_state:
  "admissible_run start agent_run" "registers_once_run start agent_run"
  "map fst (agents (fst (run start agent_run))) = [''demo-agent-001'', ''A1'']"
  "guiClients (fst (run start agent_run)) = [1]"
  "conns (fst (run start agent_run)) = (\<lambda>ws. new_ws)
      (1 := new_ws\<lparr>clientType := Some Gui\<rparr>,
       2 := new_ws\<lparr>clientType := Some AgentClient, agentId := Some ''A1''\<rparr>)"
  by (simp_all add: agent_run_def start_def new_ws_def fresh_def on_message_def on_timer_def
      handleMessage_def envelope_of_def registerGUI_def registerAgent_def no_data_def
      or_default_def Let_def broadcastToGUIs_def set_add_def is_registration_def)

text \<open>
  C6, amended, at a run with a dashboard on socket 1 and an agent on socket 2: the record
  \<^verbatim>\<open>A1\<close> has exactly one socket, and the close of socket 2 deletes it and tells the
  dashboard.
\<close>

theorem C6_agents_and_connections_witness:
  "admissible_run start agent_run \<and> registers_once_run start agent_run \<and>
   (\<exists>!ws. agentId (conns (fst (run start agent_run)) ws) = Some ''A1'' \<and>
          readyState (conns (fst (run start agent_run)) ws) \<noteq> CLOSED) \<and>
   agentId (conns (fst (run start agent_run)) 2) = Some ''A1'' \<and>
   map fst (agents (fst (on_close (fst (run start agent_run)) 2))) = [''demo-agent-001''] \<and>
   snd (on_close (fst (run start agent_run)) 2) = [(1, AgentDisconnected ''A1'')]"
proof -
  note c6 = C6_agents_and_connections [OF agent_run_state(1,2), unfolded Let_def]
  have a1: "''A1'' \<in> fst ` set (agents (fst (run start agent_run)))"
    using agent_run_state(3) by (metis list.set_intros(1,2) set_map)
  from c6 have "\<forall>a \<in> fst ` set (agents (fst (run start agent_run))). a \<noteq> ''demo-agent-001'' \<longrightarrow>
      (\<exists>!ws. agentId (conns (fst (run start agent_run)) ws) = Some a \<and>
          readyState (conns (fst (run start agent_run)) ws) \<noteq> CLOSED)"
    by (rule conjunct1)
  from bspec [OF this a1] have u: "\<exists>!ws. agentId (conns (fst (run start agent_run)) ws) = Some ''A1'' \<and>
          readyState (conns (fst (run start agent_run)) ws) \<noteq> CLOSED" by simp
  have w: "clientType (conns (fst (run start agent_run)) 2) = Some AgentClient"
    "readyState (conns (fst (run start agent_run)) 2) \<noteq> CLOSED"
    "agentId (conns (fst (run start agent_run)) 2) = Some ''A1''"
    by (simp_all add: agent_run_state(5) new_ws_def)
  from c6 have "\<forall>ws. clientType (conns (fst (run start agent_run)) ws) = Some AgentClient \<and>
        readyState (conns (fst (run start agent_run)) ws) \<noteq> CLOSED \<longrightarrow>
        (\<exists>k. agentId (conns (fst (run start agent_run)) ws) = Some k \<and>
             k \<in> fst ` set (agents (fst (run start agent_run))) \<and>
             agents (fst (on_close (fst (run start agent_run)) ws))
               = AList.delete k (agents (fst (run start agent_run))) \<and>
             k \<notin> fst ` set (agents (fst (on_close (fst (run start agent_run)) ws))) \<and>
             snd (on_close (fst (run start agent_run)) ws) = map (\<lambda>gui. (gui, AgentDisconnected k))
               (filter (\<lambda>gui. gui \<noteq> ws \<and> readyState (conns (fst (run start agent_run)) gui) = OPEN)
                  (guiClients (fst (run start agent_run)))))"
    by (rule conjunct2)
  from spec [OF this, of 2] w(1,2) obtain k
    where k: "agentId (conns (fst (run start agent_run)) 2) = Some k"
    "agents (fst (on_close (fst (run start agent_run)) 2))
       = AList.delete k (agents (fst (run start agent_run)))"
    "snd (on_close (fst (run start agent_run)) 2) = map (\<lambda>gui. (gui, AgentDisconnected k))
       (filter (\<lambda>gui. gui \<noteq> 2 \<and> readyState (conns (fst (run start agent_run)) gui) = OPEN)
          (guiClients (fst (run start agent_run))))"
    by auto
  from k(1) w(3) have ka: "k = ''A1''" by simp
  have d: "map fst (AList.delete ''A1'' (agents (fst (run start agent_run)))) = [''demo-agent-001'']"
    by (simp add: AList.delete_keys agent_run_state(3))
  have o: "readyState (conns (fst (run start agent_run)) 1) = OPEN"
    by (simp add: agent_run_state(5) new_ws_def)
  from k(3) ka o have s: "snd (on_close (fst (run start agent_run)) 2) = [(1, AgentDisconnected ''A1'')]"
    by (simp add: agent_run_state(4))
  from k(2) ka d have a: "map fst (agents (fst (on_close (fst (run start agent_run)) 2))) = [''demo-agent-001'']"
    by simp
  from agent_run_state(1,2) u w(3) a s show ?thesis by (intro conjI)
qed

end
